theory Spec2Isabelle
  imports Complex_Main "HOL-Library.Sublist" "HOL-Library.AList"
begin

section \<open>Python values used by the Fake-News-Detector pipeline\<close>

text \<open>
  A Python \<open>str\<close> is modelled as a \<open>string\<close> whose elements are code points; HOL
  characters cover the code points 0..255, so \<open>length\<close> counts code points as
  Python's \<open>len\<close> does on that range.  Source names that begin with an underscore
  (\<open>_parse_analysis\<close>, \<open>_validate_analysis\<close>, ...) lose it here, since an
  identifier cannot start with one.
\<close>

subsection \<open>Strings: whitespace, strip, find, rfind, slicing\<close>

text \<open>\<open>str.isspace\<close> on one code point below 256: TAB..CR, FS..US, space, NEL, NBSP.\<close>

definition py_isspace :: "char \<Rightarrow> bool" where
  "py_isspace c =
     (let n = (of_char c :: nat)
      in (9 \<le> n \<and> n \<le> 13) \<or> (28 \<le> n \<and> n \<le> 32) \<or> n = 133 \<or> n = 160)"

text \<open>\<open>s.strip()\<close>: leading and trailing whitespace removed.\<close>

definition py_lstrip :: "string \<Rightarrow> string" where
  "py_lstrip s = dropWhile py_isspace s"

definition py_rstrip :: "string \<Rightarrow> string" where
  "py_rstrip s = rev (dropWhile py_isspace (rev s))"

definition py_strip :: "string \<Rightarrow> string" where
  "py_strip s = py_rstrip (py_lstrip s)"

text \<open>
  \<open>find_aux sub s i\<close> scans \<open>s\<close> from the left, \<open>i\<close> being the index of its head in
  the whole text, and returns the index of the first position where \<open>sub\<close> starts.
\<close>

primrec find_aux :: "string \<Rightarrow> string \<Rightarrow> nat \<Rightarrow> nat option" where
  "find_aux sub [] i = (if sub = [] then Some i else None)"
| "find_aux sub (c # cs) i =
     (if prefix sub (c # cs) then Some i else find_aux sub cs (Suc i))"

text \<open>\<open>s.find(sub, start)\<close> for a start \<open>\<ge> 0\<close>: the lowest index, or \<open>-1\<close>.\<close>

definition py_find :: "string \<Rightarrow> string \<Rightarrow> nat \<Rightarrow> int" where
  "py_find s sub start =
     (if length s < start then - 1
      else case find_aux sub (drop start s) start of None \<Rightarrow> - 1 | Some i \<Rightarrow> int i)"

text \<open>\<open>rfind_aux\<close> remembers the last position at which \<open>sub\<close> was seen to start.\<close>

primrec rfind_aux :: "string \<Rightarrow> string \<Rightarrow> nat \<Rightarrow> int \<Rightarrow> int" where
  "rfind_aux sub [] i found = (if sub = [] then int i else found)"
| "rfind_aux sub (c # cs) i found =
     rfind_aux sub cs (Suc i) (if prefix sub (c # cs) then int i else found)"

text \<open>\<open>s.rfind(sub)\<close>: the highest index, or \<open>-1\<close>.\<close>

definition py_rfind :: "string \<Rightarrow> string \<Rightarrow> int" where
  "py_rfind s sub = rfind_aux sub s 0 (- 1)"

text \<open>\<open>sub in s\<close> for two strings.\<close>

definition py_in :: "string \<Rightarrow> string \<Rightarrow> bool" where
  "py_in sub s = (find_aux sub s 0 \<noteq> None)"

text \<open>
  \<open>s[i:j]\<close>: a negative bound counts from the end, both bounds are clipped to
  \<open>0..len(s)\<close>, and the slice is empty when the bounds cross.
\<close>

definition slice_bound :: "nat \<Rightarrow> int \<Rightarrow> nat" where
  "slice_bound n k = (if k < 0 then nat (max 0 (k + int n)) else min (nat k) n)"

definition py_slice :: "string \<Rightarrow> int \<Rightarrow> int \<Rightarrow> string" where
  "py_slice s i j = drop (slice_bound (length s) i) (take (slice_bound (length s) j) s)"

section \<open>utils.py\<close>

text \<open>\<open>re.search(r'[a-zA-Z0-9]', claim)\<close> finds a match iff some code point is an ASCII
  letter or digit.\<close>

definition is_ascii_alnum :: "char \<Rightarrow> bool" where
  "is_ascii_alnum c =
     (let n = (of_char c :: nat)
      in (97 \<le> n \<and> n \<le> 122) \<or> (65 \<le> n \<and> n \<le> 90) \<or> (48 \<le> n \<and> n \<le> 57))"

definition re_search_alnum :: "string \<Rightarrow> bool" where
  "re_search_alnum s = list_ex is_ascii_alnum s"

definition validate_input :: "string \<Rightarrow> bool" where
  "validate_input claim =
     (if claim = [] \<or> length (py_strip claim) < 10 then False
      else if \<not> re_search_alnum claim then False
      else True)"

section \<open>Python values: JSON data, exceptions, the runtime\<close>

text \<open>
  What \<open>json.loads\<close> can return.  A float is its exact rational value, or one of the
  three non-finite values that \<open>json.loads\<close> accepts (\<open>Infinity\<close>, \<open>-Infinity\<close>,
  \<open>NaN\<close>); only comparisons are made on it.  A dict is an association list in
  insertion order; lookup reads the first binding of a key.
\<close>

datatype pyfloat = Finite rat | PosInf | NegInf | NaN

datatype json =
    JNull
  | JBool bool
  | JInt int
  | JFloat pyfloat
  | JStr string
  | JList "json list"
  | JDict "(string \<times> json) list"

text \<open>
  The exceptions (all subclasses of \<open>Exception\<close>) that the modelled code can meet.
  \<open>OtherError\<close> is any other exception raised by a library or a remote service, with
  its message.
\<close>

datatype exn =
    KeyError string
  | TypeError
  | AttributeError
  | IndexError
  | UnboundLocalError
  | JSONDecodeError
  | OtherError string

text \<open>
  The two facilities of the Python runtime that the analyzer calls and that are not part
  of the repository: \<open>json.loads\<close>, and the text \<open>str(e)\<close> of an exception.
\<close>

record runtime =
  json_loads :: "string \<Rightarrow> exn + json"
  exn_str :: "exn \<Rightarrow> string"

subsection \<open>Built-in operations on JSON values\<close>

text \<open>\<open>key in analysis\<close>: key test on a dict, element test on a list, substring test on
  a str, \<open>TypeError\<close> on anything else.\<close>

fun py_contains :: "json \<Rightarrow> string \<Rightarrow> exn + bool" where
  "py_contains (JDict d) k = Inr (k \<in> set (map fst d))"
| "py_contains (JList xs) k = Inr (JStr k \<in> set xs)"
| "py_contains (JStr s) k = Inr (py_in k s)"
| "py_contains JNull k = Inl TypeError"
| "py_contains (JBool b) k = Inl TypeError"
| "py_contains (JInt i) k = Inl TypeError"
| "py_contains (JFloat f) k = Inl TypeError"

text \<open>\<open>analysis[key] = value\<close> with a str key: only a dict accepts it.\<close>

fun py_setitem :: "json \<Rightarrow> string \<Rightarrow> json \<Rightarrow> exn + json" where
  "py_setitem (JDict d) k v = Inr (JDict (AList.update k v d))"
| "py_setitem JNull k v = Inl TypeError"
| "py_setitem (JBool b) k v = Inl TypeError"
| "py_setitem (JInt i) k v = Inl TypeError"
| "py_setitem (JFloat f) k v = Inl TypeError"
| "py_setitem (JStr s) k v = Inl TypeError"
| "py_setitem (JList xs) k v = Inl TypeError"

text \<open>\<open>analysis.get(key, default)\<close>: only a dict has the method.\<close>

fun py_get :: "json \<Rightarrow> string \<Rightarrow> json \<Rightarrow> exn + json" where
  "py_get (JDict d) k dflt = Inr (case map_of d k of None \<Rightarrow> dflt | Some v \<Rightarrow> v)"
| "py_get JNull k dflt = Inl AttributeError"
| "py_get (JBool b) k dflt = Inl AttributeError"
| "py_get (JInt i) k dflt = Inl AttributeError"
| "py_get (JFloat f) k dflt = Inl AttributeError"
| "py_get (JStr s) k dflt = Inl AttributeError"
| "py_get (JList xs) k dflt = Inl AttributeError"

text \<open>
  \<open>x < n\<close> and \<open>x > n\<close> for an int \<open>n\<close>: defined on int, bool (as 0 and 1) and
  float (false against \<open>NaN\<close>); \<open>TypeError\<close> on \<open>None\<close>, str, list and dict.
\<close>

fun float_less_int :: "pyfloat \<Rightarrow> int \<Rightarrow> bool" where
  "float_less_int (Finite q) n = (q < of_int n)"
| "float_less_int PosInf n = False"
| "float_less_int NegInf n = True"
| "float_less_int NaN n = False"

fun float_greater_int :: "pyfloat \<Rightarrow> int \<Rightarrow> bool" where
  "float_greater_int (Finite q) n = (of_int n < q)"
| "float_greater_int PosInf n = True"
| "float_greater_int NegInf n = False"
| "float_greater_int NaN n = False"

fun py_less_int :: "json \<Rightarrow> int \<Rightarrow> exn + bool" where
  "py_less_int (JInt i) n = Inr (i < n)"
| "py_less_int (JBool b) n = Inr ((if b then 1 else 0) < n)"
| "py_less_int (JFloat f) n = Inr (float_less_int f n)"
| "py_less_int JNull n = Inl TypeError"
| "py_less_int (JStr s) n = Inl TypeError"
| "py_less_int (JList xs) n = Inl TypeError"
| "py_less_int (JDict d) n = Inl TypeError"

fun py_greater_int :: "json \<Rightarrow> int \<Rightarrow> exn + bool" where
  "py_greater_int (JInt i) n = Inr (n < i)"
| "py_greater_int (JBool b) n = Inr (n < (if b then 1 else 0))"
| "py_greater_int (JFloat f) n = Inr (float_greater_int f n)"
| "py_greater_int JNull n = Inl TypeError"
| "py_greater_int (JStr s) n = Inl TypeError"
| "py_greater_int (JList xs) n = Inl TypeError"
| "py_greater_int (JDict d) n = Inl TypeError"

text \<open>
  \<open>min(n, x)\<close> and \<open>max(n, x)\<close> with the int first: the built-ins keep the first
  argument unless the second is strictly smaller (strictly greater for \<open>max\<close>).
\<close>

definition py_min_int :: "int \<Rightarrow> json \<Rightarrow> exn + json" where
  "py_min_int n x =
     (case py_less_int x n of Inl e \<Rightarrow> Inl e | Inr b \<Rightarrow> Inr (if b then x else JInt n))"

definition py_max_int :: "int \<Rightarrow> json \<Rightarrow> exn + json" where
  "py_max_int n x =
     (case py_greater_int x n of Inl e \<Rightarrow> Inl e | Inr b \<Rightarrow> Inr (if b then x else JInt n))"

text \<open>
  \<open>int(s)\<close> for a str, base 10: surrounding whitespace is dropped (TAB..CR and space,
  and NEL and NBSP above 127), then an optional sign, then decimal digits, single
  underscores allowed between two digits.  \<open>None\<close> stands for \<open>ValueError\<close>.  The limit
  on the number of digits that recent interpreters add is not modelled.
\<close>

definition int_isspace :: "char \<Rightarrow> bool" where
  "int_isspace c =
     (let n = (of_char c :: nat) in (9 \<le> n \<and> n \<le> 13) \<or> n = 32 \<or> n = 133 \<or> n = 160)"

definition is_digit :: "char \<Rightarrow> bool" where
  "is_digit c = (let n = (of_char c :: nat) in 48 \<le> n \<and> n \<le> 57)"

definition digit_val :: "char \<Rightarrow> nat" where
  "digit_val c = of_char c - 48"

fun parse_digits :: "string \<Rightarrow> nat \<Rightarrow> nat option" where
  "parse_digits [] acc = Some acc"
| "parse_digits [c] acc = (if is_digit c then Some (10 * acc + digit_val c) else None)"
| "parse_digits (c # d # ds) acc =
     (if is_digit c then parse_digits (d # ds) (10 * acc + digit_val c)
      else if c = CHR ''_'' \<and> is_digit d then parse_digits ds (10 * acc + digit_val d)
      else None)"

definition parse_unsigned :: "string \<Rightarrow> nat option" where
  "parse_unsigned s =
     (case s of [] \<Rightarrow> None
      | c # cs \<Rightarrow> if is_digit c then parse_digits cs (digit_val c) else None)"

definition py_int :: "string \<Rightarrow> int option" where
  "py_int s =
     (let t = rev (dropWhile int_isspace (rev (dropWhile int_isspace s)))
      in case t of
           [] \<Rightarrow> None
         | c # cs \<Rightarrow>
             if c = CHR ''-'' then map_option (\<lambda>n. - int n) (parse_unsigned cs)
             else if c = CHR ''+'' then map_option int (parse_unsigned cs)
             else map_option int (parse_unsigned t))"

text \<open>\<open>sep.join(parts)\<close> and \<open>str(n)\<close> for a natural number.\<close>

fun py_join :: "string \<Rightarrow> string list \<Rightarrow> string" where
  "py_join sep [] = []"
| "py_join sep [p] = p"
| "py_join sep (p # q # ps) = p @ sep @ py_join sep (q # ps)"

fun str_nat :: "nat \<Rightarrow> string" where
  "str_nat n =
     (if n < 10 then [char_of (48 + n)]
      else str_nat (n div 10) @ [char_of (48 + n mod 10)])"

declare str_nat.simps [simp del]

section \<open>analyzer.py\<close>

text \<open>
  An evidence record is a dict from str to str; a value can also be \<open>None\<close>, which is
  what \<open>item.get\<close> gives for a field that the search service left out.
\<close>

type_synonym evidence = "(string \<times> string option) list"

text \<open>The chat-completion request, and the client of the \<open>NewsAnalyzer\<close> object: the
  call \<open>client.chat.completions.create\<close> raises or returns the \<open>message.content\<close> of
  each choice of the response (\<open>None\<close> when a choice has no text).\<close>

record request =
  req_model :: string
  req_messages :: "(string \<times> string) list"
  req_max_tokens :: int
  req_temperature :: rat

record NewsAnalyzer =
  model :: string
  create :: "request \<Rightarrow> exn + string option list"

text \<open>\<open>result[key]\<close> on an evidence dict, and the text an f-string gives a value.\<close>

definition getitem :: "evidence \<Rightarrow> string \<Rightarrow> exn + string option" where
  "getitem result k = (case map_of result k of None \<Rightarrow> Inl (KeyError k) | Some v \<Rightarrow> Inr v)"

fun format_value :: "string option \<Rightarrow> string" where
  "format_value None = ''None''"
| "format_value (Some s) = s"

fun context_parts :: "nat \<Rightarrow> evidence list \<Rightarrow> exn + string list" where
  "context_parts i [] = Inr []"
| "context_parts i (result # rest) =
     (case getitem result ''title'' of Inl e \<Rightarrow> Inl e
      | Inr t \<Rightarrow>
     (case getitem result ''link'' of Inl e \<Rightarrow> Inl e
      | Inr l \<Rightarrow>
     (case getitem result ''snippet'' of Inl e \<Rightarrow> Inl e
      | Inr s \<Rightarrow>
     (case context_parts (Suc i) rest of Inl e \<Rightarrow> Inl e
      | Inr parts \<Rightarrow>
          Inr ((''Source '' @ str_nat i @ '': '' @ format_value t @ ''\<newline>'' @
                ''URL: '' @ format_value l @ ''\<newline>'' @
                ''Summary: '' @ format_value s @ ''\<newline>'') # parts)))))"

definition prepare_context :: "evidence list \<Rightarrow> exn + string" where
  "prepare_context search_results =
     (case context_parts 1 search_results of Inl e \<Rightarrow> Inl e
      | Inr parts \<Rightarrow> Inr (py_join ''\<newline>'' parts))"

definition get_system_prompt :: string where
  \<open>get_system_prompt =
     ''You are a fact-checking assistant that analyzes news claims for credibility.\<newline>'' @
     ''        Your task is to evaluate claims based on available evidence and provide a structured analysis.\<newline>'' @
     ''        Be objective, thorough, and base your assessment on the information provided.\<newline>'' @
     ''        Always respond with a JSON object containing the analysis.''\<close>

definition create_analysis_prompt :: "string \<Rightarrow> string \<Rightarrow> string" where
  \<open>create_analysis_prompt claim context =
     ''Analyze the following claim for credibility based on the search results provided.\<newline>'' @
     ''\<newline>'' @
     ''CLAIM: '' @ claim @
     ''\<newline>'' @
     ''\<newline>'' @
     ''SEARCH RESULTS:\<newline>'' @ context @
     ''\<newline>'' @
     ''\<newline>'' @
     ''Please provide your analysis as a JSON object with the following structure:\<newline>'' @
     ''{\<newline>'' @
     ''    "credibility_score": <integer from 0-10>,\<newline>'' @
     ''    "verdict": "<Likely True/Likely False/Uncertain/Mixed Evidence>",\<newline>'' @
     ''    "confidence": "<High/Medium/Low>",\<newline>'' @
     ''    "explanation": "<detailed explanation of your analysis>",\<newline>'' @
     ''    "key_findings": ["<finding 1>", "<finding 2>", ...],\<newline>'' @
     ''    "red_flags": ["<red flag 1>", "<red flag 2>", ...],\<newline>'' @
     ''    "supporting_evidence": ["<evidence 1>", "<evidence 2>", ...]\<newline>'' @
     ''}\<newline>'' @
     ''\<newline>'' @
     ''Consider:\<newline>'' @
     ''- Consistency across sources\<newline>'' @
     ''- Source credibility\<newline>'' @
     ''- Presence of factual information vs opinion\<newline>'' @
     ''- Any obvious signs of misinformation\<newline>'' @
     ''- Date and relevance of information''\<close>

text \<open>
  The first half of the \<open>try\<close> block of \<open>_parse_analysis\<close>: the choice of the substring
  that is handed to \<open>json.loads\<close>.
\<close>

definition extract_json_str :: "string \<Rightarrow> string" where
  "extract_json_str analysis_text =
     (if py_in ''```json'' analysis_text then
        (let json_start = py_find analysis_text ''```json'' 0 + 7;
             json_end = py_find analysis_text ''```'' (nat json_start)
         in py_strip (py_slice analysis_text json_start json_end))
      else if py_in ''{'' analysis_text \<and> py_in ''}'' analysis_text then
        (let json_start = py_find analysis_text ''{'' 0;
             json_end = py_rfind analysis_text ''}'' + 1
         in py_slice analysis_text json_start json_end)
      else analysis_text)"

definition defaults :: "(string \<times> json) list" where
  "defaults =
     [(''credibility_score'', JInt 5),
      (''verdict'', JStr ''Uncertain''),
      (''confidence'', JStr ''Medium''),
      (''explanation'', JStr ''Analysis could not be completed''),
      (''key_findings'', JList []),
      (''red_flags'', JList []),
      (''supporting_evidence'', JList [])]"

text \<open>The loop \<open>for key, default_value in defaults.items()\<close> of \<open>_validate_analysis\<close>.\<close>

fun merge_defaults :: "(string \<times> json) list \<Rightarrow> json \<Rightarrow> exn + json" where
  "merge_defaults [] analysis = Inr analysis"
| "merge_defaults ((key, default_value) # rest) analysis =
     (case py_contains analysis key of Inl e \<Rightarrow> Inl e
      | Inr present \<Rightarrow>
          if \<not> present then
            (case py_setitem analysis key default_value of Inl e \<Rightarrow> Inl e
             | Inr analysis' \<Rightarrow> merge_defaults rest analysis')
          else merge_defaults rest analysis)"

text \<open>\<open>if isinstance(score, str): try: score = int(score) except ValueError: score = 5\<close>\<close>

fun coerce_score :: "json \<Rightarrow> json" where
  "coerce_score (JStr s) = (case py_int s of None \<Rightarrow> JInt 5 | Some i \<Rightarrow> JInt i)"
| "coerce_score score = score"

definition validate_analysis :: "json \<Rightarrow> exn + json" where
  "validate_analysis analysis =
     (case merge_defaults defaults analysis of Inl e \<Rightarrow> Inl e
      | Inr merged \<Rightarrow>
     (case py_get merged ''credibility_score'' (JInt 5) of Inl e \<Rightarrow> Inl e
      | Inr score \<Rightarrow>
     (case py_min_int 10 (coerce_score score) of Inl e \<Rightarrow> Inl e
      | Inr low \<Rightarrow>
     (case py_max_int 0 low of Inl e \<Rightarrow> Inl e
      | Inr clamped \<Rightarrow> py_setitem merged ''credibility_score'' clamped))))"

text \<open>The record that \<open>_parse_analysis\<close> returns on \<open>json.JSONDecodeError\<close>.\<close>

definition non_json_fallback :: "string \<Rightarrow> json" where
  "non_json_fallback analysis_text =
     JDict [(''credibility_score'', JInt 5),
            (''verdict'', JStr ''Uncertain''),
            (''explanation'', JStr analysis_text),
            (''confidence'', JStr ''Medium''),
            (''key_findings'', JList []),
            (''red_flags'', JList []),
            (''supporting_evidence'', JList [])]"

definition parse_analysis_try :: "runtime \<Rightarrow> string \<Rightarrow> exn + json" where
  "parse_analysis_try rt analysis_text =
     (case json_loads rt (extract_json_str analysis_text) of Inl e \<Rightarrow> Inl e
      | Inr analysis \<Rightarrow> validate_analysis analysis)"

definition parse_analysis :: "runtime \<Rightarrow> string \<Rightarrow> exn + json" where
  "parse_analysis rt analysis_text =
     (case parse_analysis_try rt analysis_text of
        Inl e \<Rightarrow> if e = JSONDecodeError then Inr (non_json_fallback analysis_text) else Inl e
      | Inr analysis \<Rightarrow> Inr analysis)"

text \<open>
  The \<open>try\<close> block of \<open>analyze_claim\<close>.  \<open>response.choices[0]\<close> raises \<open>IndexError\<close> on
  an empty list of choices, and a content of \<open>None\<close> makes the first test of
  \<open>_parse_analysis\<close> (\<open>"```json" in analysis_text\<close>) raise \<open>TypeError\<close>.
\<close>

definition completion_request :: "NewsAnalyzer \<Rightarrow> string \<Rightarrow> string \<Rightarrow> request" where
  "completion_request self claim context =
     \<lparr>req_model = model self,
      req_messages = [(''system'', get_system_prompt),
                      (''user'', create_analysis_prompt claim context)],
      req_max_tokens = 1000,
      req_temperature = 8 / 10\<rparr>"

definition analyze_try ::
    "runtime \<Rightarrow> NewsAnalyzer \<Rightarrow> string \<Rightarrow> evidence list \<Rightarrow> exn + json" where
  "analyze_try rt self claim search_results =
     (case prepare_context search_results of Inl e \<Rightarrow> Inl e
      | Inr context \<Rightarrow>
     (case create self (completion_request self claim context) of Inl e \<Rightarrow> Inl e
      | Inr choices \<Rightarrow>
     (case choices of [] \<Rightarrow> Inl IndexError
      | content # others \<Rightarrow>
     (case content of None \<Rightarrow> Inl TypeError
      | Some analysis_text \<Rightarrow> parse_analysis rt analysis_text))))"

text \<open>The record of the \<open>except Exception\<close> branch of \<open>analyze_claim\<close>.  The branch
  also prints the error; output to the console is left out of the model, here and in the
  two scraping steps.\<close>

definition analysis_failed :: "runtime \<Rightarrow> exn \<Rightarrow> json" where
  "analysis_failed rt e =
     JDict [(''credibility_score'', JInt 0),
            (''verdict'', JStr ''Analysis Failed''),
            (''explanation'', JStr (''Could not complete analysis: '' @ exn_str rt e)),
            (''confidence'', JStr ''Low'')]"

definition analyze_claim ::
    "runtime \<Rightarrow> NewsAnalyzer \<Rightarrow> string \<Rightarrow> evidence list \<Rightarrow> json" where
  "analyze_claim rt self claim search_results =
     (case analyze_try rt self claim search_results of
        Inl e \<Rightarrow> analysis_failed rt e
      | Inr analysis \<Rightarrow> analysis)"

text \<open>Reading a returned record: its keys and the value under a key.\<close>

fun keys_of :: "json \<Rightarrow> string set" where
  "keys_of (JDict d) = set (map fst d)"
| "keys_of other = {}"

fun field :: "json \<Rightarrow> string \<Rightarrow> json option" where
  "field (JDict d) k = map_of d k"
| "field other k = None"

section \<open>scraper.py\<close>

text \<open>
  The scraper object holds the two optional credentials.  Python's truth test on them:
  \<open>None\<close> and the empty string are false.
\<close>

record GoogleSearchScraper =
  api_key :: "string option"
  search_id :: "string option"

fun truthy :: "string option \<Rightarrow> bool" where
  "truthy None = False"
| "truthy (Some s) = (s \<noteq> [])"

text \<open>
  What the code sees of a parsed HTML page.  An element gives its stripped text
  (\<open>get_text(strip=True)\<close>) and its \<open>href\<close> attribute if it has one.  A result block of
  the first search page answers \<open>select_one\<close> for a selector; a result block of the
  second page answers the two \<open>find\<close> calls made on it.
\<close>

record element =
  get_text :: string
  href :: "string option"

type_synonym block = "string \<Rightarrow> element option"

record ddg_block =
  result_a :: "element option"
  result_snippet :: "element option"

text \<open>
  The network.  \<open>cse_list key cx q num\<close> is \<open>build(...).cse().list(q, cx, num).execute()\<close>:
  it raises, or returns the response, of which the code reads the \<open>items\<close> entry only
  (\<open>None\<close> when the response has no such entry).  The two page requests raise, or
  return the status code and the result blocks that the selectors find in the page.
\<close>

record web =
  cse_list ::
    "string option \<Rightarrow> string option \<Rightarrow> string \<Rightarrow> int \<Rightarrow> exn + (string \<times> string) list list option"
  google_get :: "string \<Rightarrow> exn + int \<times> block list"
  ddg_post :: "string \<Rightarrow> exn + int \<times> ddg_block list"

definition evidence_of_item :: "(string \<times> string) list \<Rightarrow> evidence" where
  "evidence_of_item item =
     [(''title'', map_of item ''title''),
      (''link'', map_of item ''link''),
      (''snippet'', map_of item ''snippet'')]"

definition use_google_custom_search ::
    "GoogleSearchScraper \<Rightarrow> web \<Rightarrow> string \<Rightarrow> int \<Rightarrow> exn + evidence list" where
  "use_google_custom_search self w query limit =
     (case cse_list w (api_key self) (search_id self) query limit of Inl e \<Rightarrow> Inl e
      | Inr response \<Rightarrow>
          Inr (map evidence_of_item (case response of None \<Rightarrow> [] | Some items \<Rightarrow> items)))"

text \<open>The inner loops \<open>for selector in [...]\<close>: the text of the first selector that matches.\<close>

fun first_match :: "block \<Rightarrow> string list \<Rightarrow> string option" where
  "first_match d [] = None"
| "first_match d (selector # rest) =
     (case d selector of Some elem \<Rightarrow> Some (get_text elem) | None \<Rightarrow> first_match d rest)"

text \<open>The loop over the result blocks of \<open>_search_google_simple\<close>; the first test is the
  \<open>break\<close>, a missing title is the \<open>continue\<close>.\<close>

fun google_loop :: "string \<Rightarrow> int \<Rightarrow> block list \<Rightarrow> evidence list \<Rightarrow> evidence list" where
  "google_loop query limit [] results = results"
| "google_loop query limit (d # ds) results =
     (if limit \<le> int (length results) then results
      else
        (let title = first_match d [''h3'', ''h3.LC20lb'', ''h3.r''] in
         if \<not> truthy title then google_loop query limit ds results
         else
           (let link = (case d ''a'' of None \<Rightarrow> None
                        | Some link_elem \<Rightarrow>
                            Some (case href link_elem of None \<Rightarrow> '''' | Some h \<Rightarrow> h));
                snippet = (case first_match d [''div.VwiC3b'', ''span.aCOpRe'', ''div.s'', ''div.st'']
                           of None \<Rightarrow> '''' | Some s \<Rightarrow> s)
            in if truthy title \<and> (case link of None \<Rightarrow> False
                                 | Some l \<Rightarrow> l \<noteq> [] \<and> py_in ''http'' l) then
                 google_loop query limit ds
                   (results @
                    [[(''title'', title),
                      (''link'', link),
                      (''snippet'',
                       Some (if snippet \<noteq> [] then snippet
                             else ''Information related to '' @ query))]])
               else google_loop query limit ds results)))"

definition search_google_simple :: "web \<Rightarrow> string \<Rightarrow> int \<Rightarrow> evidence list" where
  "search_google_simple w query limit =
     (case google_get w query of Inl e \<Rightarrow> []
      | Inr (status_code, divs) \<Rightarrow>
          if status_code \<noteq> 200 then [] else google_loop query limit divs [])"

fun ddg_loop :: "string \<Rightarrow> int \<Rightarrow> ddg_block list \<Rightarrow> evidence list \<Rightarrow> evidence list" where
  "ddg_loop query limit [] results = results"
| "ddg_loop query limit (result_div # rest) results =
     (if limit \<le> int (length results) then results
      else
        (case result_a result_div of None \<Rightarrow> ddg_loop query limit rest results
         | Some title_elem \<Rightarrow>
             (let title = get_text title_elem;
                  link = (case href title_elem of None \<Rightarrow> '''' | Some h \<Rightarrow> h);
                  snippet = (case result_snippet result_div of None \<Rightarrow> ''''
                             | Some snippet_elem \<Rightarrow> get_text snippet_elem)
              in if title \<noteq> [] \<and> link \<noteq> [] then
                   ddg_loop query limit rest
                     (results @
                      [[(''title'', Some title),
                        (''link'', Some link),
                        (''snippet'',
                         Some (if snippet \<noteq> [] then snippet
                               else ''Information about '' @ query))]])
                 else ddg_loop query limit rest results)))"

definition search_duckduckgo :: "web \<Rightarrow> string \<Rightarrow> int \<Rightarrow> evidence list" where
  "search_duckduckgo w query limit =
     (case ddg_post w query of Inl e \<Rightarrow> []
      | Inr (status_code, divs) \<Rightarrow>
          if status_code \<noteq> 200 then [] else ddg_loop query limit divs [])"

definition get_fallback_results :: "string \<Rightarrow> evidence list" where
  "get_fallback_results query =
     [[(''title'', Some (''Search result 1 for: '' @ query)),
       (''link'', Some ''https://example.com/1''),
       (''snippet'',
        Some (''This would contain information about '' @ query @
              ''. The actual search service is currently unavailable, but the analysis will still work based on the query.''))],
      [(''title'', Some (''Fact-check article about: '' @ query)),
       (''link'', Some ''https://example.com/2''),
       (''snippet'',
        Some (''Various sources discuss '' @ query @
              ''. Unable to retrieve actual search results at this time.''))],
      [(''title'', Some (''News article related to: '' @ query)),
       (''link'', Some ''https://example.com/3''),
       (''snippet'',
        Some (''Recent developments regarding '' @ query @
              ''. Search functionality limited but analysis can proceed.''))]]"

text \<open>
  \<open>search\<close>.  The local variable \<open>results\<close> is assigned only inside the first \<open>if\<close>;
  it is \<open>None\<close> here while unassigned, and reading it then raises \<open>UnboundLocalError\<close>.
  The call of \<open>_use_google_custom_search\<close> is not inside a \<open>try\<close>.
\<close>

definition search ::
    "GoogleSearchScraper \<Rightarrow> web \<Rightarrow> string \<Rightarrow> int \<Rightarrow> exn + evidence list" where
  "search self w query num_results =
     (case (if truthy (api_key self) \<and> truthy (search_id self) then
              (case use_google_custom_search self w query num_results of Inl e \<Rightarrow> Inl e
               | Inr found \<Rightarrow> Inr (Some found))
            else Inr None) of Inl e \<Rightarrow> Inl e
      | Inr unassigned_or_results \<Rightarrow>
     (case unassigned_or_results of None \<Rightarrow> Inl UnboundLocalError
      | Some results0 \<Rightarrow>
          (let results1 = (if results0 = [] then search_google_simple w query num_results
                           else results0);
               results2 = (if results1 = [] then search_duckduckgo w query num_results
                           else results1);
               results3 = (if results2 = [] then get_fallback_results query else results2)
           in Inr results3)))"

section \<open>Notions used to state the properties\<close>

text \<open>The score that \<open>_validate_analysis\<close> reads from the merged dict:
  \<open>analysis.get('credibility_score', 5)\<close>.\<close>

definition parsed_score :: "(string \<times> json) list \<Rightarrow> json" where
  "parsed_score d = (case map_of d ''credibility_score'' of None \<Rightarrow> JInt 5 | Some v \<Rightarrow> v)"

text \<open>A stored score lies in [0, 10]: an int or a finite float in that interval, or a
  bool (\<open>True\<close> is 1 and \<open>False\<close> is 0 in Python).\<close>

fun score_in_range :: "json \<Rightarrow> bool" where
  "score_in_range (JInt i) = (0 \<le> i \<and> i \<le> 10)"
| "score_in_range (JFloat (Finite q)) = (0 \<le> q \<and> q \<le> 10)"
| "score_in_range (JBool b) = True"
| "score_in_range other = False"

text \<open>The keys that the specification requires of every analysis record.\<close>

definition required_keys :: "string list" where
  "required_keys =
     [''credibility_score'', ''verdict'', ''confidence'', ''explanation'',
      ''key_findings'', ''red_flags'', ''supporting_evidence'']"

text \<open>The four keys of the record that the \<open>except\<close> branch of \<open>analyze_claim\<close> builds.\<close>

definition scalar_keys :: "string list" where
  "scalar_keys = [''credibility_score'', ''verdict'', ''explanation'', ''confidence'']"

text \<open>The degraded record of the specification, for a failure \<open>e\<close>.\<close>

definition degraded :: "runtime \<Rightarrow> exn \<Rightarrow> json \<Rightarrow> bool" where
  "degraded rt e r =
     (field r ''credibility_score'' = Some (JInt 0)
      \<and> field r ''verdict'' = Some (JStr ''Analysis Failed'')
      \<and> field r ''confidence'' = Some (JStr ''Low'')
      \<and> field r ''explanation'' = Some (JStr (''Could not complete analysis: '' @ exn_str rt e)))"

text \<open>The confidence values that the specification allows.\<close>

definition allowed_confidence :: "json option \<Rightarrow> bool" where
  "allowed_confidence c =
     (c = Some (JStr ''High'') \<or> c = Some (JStr ''Medium'') \<or> c = Some (JStr ''Low''))"

text \<open>
  Occurrences of a substring: \<open>sub\<close> occurs in \<open>s\<close>; its first occurrence starts at
  index \<open>n\<close>; its last occurrence starts at index \<open>n\<close>.
\<close>

definition occurs :: "string \<Rightarrow> string \<Rightarrow> bool" where
  "occurs sub s = (\<exists>k\<le>length s. prefix sub (drop k s))"

definition first_at :: "string \<Rightarrow> string \<Rightarrow> nat \<Rightarrow> bool" where
  "first_at sub s n =
     (n \<le> length s \<and> prefix sub (drop n s) \<and> (\<forall>k<n. \<not> prefix sub (drop k s)))"

definition last_at :: "string \<Rightarrow> string \<Rightarrow> nat \<Rightarrow> bool" where
  "last_at sub s n =
     (n \<le> length s \<and> prefix sub (drop n s)
      \<and> (\<forall>k. n < k \<and> k \<le> length s \<longrightarrow> \<not> prefix sub (drop k s)))"

text \<open>The size property of the specification for a sequence returned by \<open>search\<close>.\<close>

definition evidence_bound :: "string \<Rightarrow> int \<Rightarrow> evidence list \<Rightarrow> bool" where
  "evidence_bound query limit E =
     ((1 \<le> length E \<and> int (length E) \<le> limit) \<or> E = get_fallback_results query)"


section \<open>Concrete environments\<close>

text \<open>
  A runtime whose \<open>json.loads\<close> is given on the texts that the examples below hand to
  it: one JSON object, which it parses as \<open>json.loads\<close> does, and prose, which it
  rejects with \<open>JSONDecodeError\<close>.  The exception text is that of \<open>KeyError\<close> (the
  quoted key) and of a library exception (its message).
\<close>

definition sample_loads :: "string \<Rightarrow> exn + json" where
  \<open>sample_loads s =
     (if s = ''{"confidence": "Certain"}'' then Inr (JDict [(''confidence'', JStr ''Certain'')])
      else Inl JSONDecodeError)\<close>

fun sample_exn_str :: "exn \<Rightarrow> string" where
  "sample_exn_str (KeyError k) = [CHR 0x27] @ k @ [CHR 0x27]"
| "sample_exn_str (OtherError m) = m"
| "sample_exn_str e = []"

definition sample_runtime :: runtime where
  "sample_runtime = \<lparr>json_loads = sample_loads, exn_str = sample_exn_str\<rparr>"

text \<open>A client whose request fails with \<open>e\<close>, and one that answers with one choice.\<close>

definition client_raising :: "exn \<Rightarrow> NewsAnalyzer" where
  "client_raising e = \<lparr>model = ''gpt-5-nano'', create = (\<lambda>req. Inl e)\<rparr>"

definition client_answering :: "string \<Rightarrow> NewsAnalyzer" where
  "client_answering answer = \<lparr>model = ''gpt-5-nano'', create = (\<lambda>req. Inr [Some answer])\<rparr>"

text \<open>
  Scraper objects without and with credentials, and three networks: one where every
  request fails; one whose search service knows two items and answers with as many of
  them as it is asked for; one whose search service has no items and whose first search
  page shows the same result block three times.
\<close>

definition unconfigured :: GoogleSearchScraper where
  "unconfigured = \<lparr>api_key = None, search_id = None\<rparr>"

definition configured :: GoogleSearchScraper where
  "configured = \<lparr>api_key = Some ''key'', search_id = Some ''engine''\<rparr>"

definition offline_web :: web where
  "offline_web =
     \<lparr>cse_list = (\<lambda>key cx q num. Inl (OtherError ''Unable to find the server'')),
      google_get = (\<lambda>q. Inl (OtherError ''Connection refused'')),
      ddg_post = (\<lambda>q. Inl (OtherError ''Connection refused''))\<rparr>"




section \<open>Facts about the string operations\<close>

lemma py_strip_all_space:
  assumes "\<forall>c\<in>set s. py_isspace c"
  shows "py_strip s = []"
  using assms
  by (auto simp: py_strip_def py_lstrip_def py_rstrip_def dest: set_dropWhileD)

lemma py_strip_decomp:
  "\<exists>l r. s = l @ py_strip s @ r \<and> (\<forall>c\<in>set l. py_isspace c) \<and> (\<forall>c\<in>set r. py_isspace c)"
proof -
  let ?l = "takeWhile py_isspace s"
  let ?m = "dropWhile py_isspace s"
  let ?r = "rev (takeWhile py_isspace (rev ?m))"
  have m: "?m = py_strip s @ ?r"
    unfolding py_strip_def py_lstrip_def py_rstrip_def
    by (metis takeWhile_dropWhile_id rev_append rev_rev_ident)
  have "s = ?l @ ?m"
    by simp
  with m have "s = ?l @ py_strip s @ ?r"
    by simp
  moreover have "\<forall>c\<in>set ?l. py_isspace c"
    by (auto dest: set_takeWhileD)
  moreover have "\<forall>c\<in>set ?r. py_isspace c"
    by (auto dest: set_takeWhileD)
  ultimately show ?thesis
    by blast
qed

section \<open>Input validation\<close>

text \<open>
  C9.  \<open>validate_input\<close> is a total function to \<open>bool\<close> (it reads its argument only, so
  it neither raises nor has an effect).  It is false exactly for a claim that is empty,
  consists of whitespace only, has fewer than 10 characters once trimmed, or has no
  character in \<open>[a-zA-Z0-9]\<close>, and true for every other claim.  On the five inputs of
  the specification: the empty string, three spaces, \<open>short\<close> and ten exclamation marks
  are rejected, \<open>1234567890\<close> is accepted.
\<close>

theorem validate_input_spec:
  "(validate_input claim \<longleftrightarrow>
      \<not> (claim = [] \<or> (\<forall>c\<in>set claim. py_isspace c) \<or> length (py_strip claim) < 10
         \<or> \<not> (\<exists>c\<in>set claim. is_ascii_alnum c)))
   \<and> \<not> validate_input ''''
   \<and> \<not> validate_input ''   ''
   \<and> \<not> validate_input ''short''
   \<and> \<not> validate_input ''!!!!!!!!!!''
   \<and> validate_input ''1234567890''"
proof -
  have ws: "(\<forall>c\<in>set claim. py_isspace c) \<Longrightarrow> length (py_strip claim) < 10"
    by (simp add: py_strip_all_space)
  have general: "validate_input claim \<longleftrightarrow>
      \<not> (claim = [] \<or> (\<forall>c\<in>set claim. py_isspace c) \<or> length (py_strip claim) < 10
         \<or> \<not> (\<exists>c\<in>set claim. is_ascii_alnum c))"
    using ws by (auto simp: validate_input_def re_search_alnum_def list_ex_iff)
  have e1: "\<not> validate_input ''''"
    by (simp add: validate_input_def)
  have e2: "\<not> validate_input ''   ''"
    by (simp add: validate_input_def py_strip_def py_lstrip_def py_rstrip_def py_isspace_def)
  have e3: "\<not> validate_input ''short''"
    by (simp add: validate_input_def py_strip_def py_lstrip_def py_rstrip_def py_isspace_def)
  have e4: "\<not> validate_input ''!!!!!!!!!!''"
    by (simp add: validate_input_def py_strip_def py_lstrip_def py_rstrip_def py_isspace_def
        re_search_alnum_def is_ascii_alnum_def)
  have e5: "validate_input ''1234567890''"
    by (simp add: validate_input_def py_strip_def py_lstrip_def py_rstrip_def py_isspace_def
        re_search_alnum_def is_ascii_alnum_def)
  from general e1 e2 e3 e4 e5 show ?thesis
    by blast
qed

theorem validate_input_spec_witness:
  "validate_input ''  The moon is made of cheese  ''
   \<and> py_strip ''  The moon is made of cheese  '' = ''The moon is made of cheese''"
proof -
  have s: "py_strip ''  The moon is made of cheese  '' = ''The moon is made of cheese''"
    by (simp add: py_strip_def py_lstrip_def py_rstrip_def py_isspace_def)
  have a: "is_ascii_alnum CHR ''T''"
    by (simp add: is_ascii_alnum_def)
  have b: "\<not> py_isspace CHR ''T''"
    by (simp add: py_isspace_def)
  from validate_input_spec [of "''  The moon is made of cheese  ''"] s a b show ?thesis
    by simp
qed

section \<open>Normalisation of a parsed model output\<close>

lemma merge_defaults_dict:
  "\<exists>d'. merge_defaults ds (JDict d) = Inr (JDict d') \<and>
     (\<forall>k. map_of d' k = (case map_of d k of Some v \<Rightarrow> Some v | None \<Rightarrow> map_of ds k))"
proof (induction ds arbitrary: d)
  case Nil
  then show ?case by (auto split: option.splits)
next
  case (Cons kv ds)
  obtain key dv where kv: "kv = (key, dv)" by (cases kv)
  show ?case
  proof (cases "key \<in> set (map fst d)")
    case True
    then have some: "map_of d key \<noteq> None"
      by (simp add: map_of_eq_None_iff)
    from Cons.IH [of d] obtain d' where
      m: "merge_defaults ds (JDict d) = Inr (JDict d')" and
      l: "\<And>k. map_of d' k = (case map_of d k of Some v \<Rightarrow> Some v | None \<Rightarrow> map_of ds k)"
      by blast
    from True m kv have "merge_defaults (kv # ds) (JDict d) = Inr (JDict d')"
      by simp
    moreover from some kv have
      "\<forall>k. map_of d' k = (case map_of d k of Some v \<Rightarrow> Some v | None \<Rightarrow> map_of (kv # ds) k)"
      by (auto simp: l split: option.splits)
    ultimately show ?thesis by blast
  next
    case False
    then have none: "map_of d key = None"
      by (simp add: map_of_eq_None_iff)
    from Cons.IH [of "AList.update key dv d"] obtain d' where
      m: "merge_defaults ds (JDict (AList.update key dv d)) = Inr (JDict d')" and
      l: "\<forall>k. map_of d' k = (case map_of (AList.update key dv d) k of Some v \<Rightarrow> Some v | None \<Rightarrow> map_of ds k)"
      by blast
    from False m kv have "merge_defaults (kv # ds) (JDict d) = Inr (JDict d')"
      by simp
    moreover from l none kv have
      "\<forall>k. map_of d' k = (case map_of d k of Some v \<Rightarrow> Some v | None \<Rightarrow> map_of (kv # ds) k)"
      by (auto simp: update_conv' split: option.splits)
    ultimately show ?thesis by blast
  qed
qed

lemma merge_defaults_not_dict:
  "merge_defaults ds a = Inr a' \<Longrightarrow> \<forall>d. a \<noteq> JDict d \<Longrightarrow> a' = a"
  by (induction ds a rule: merge_defaults.induct) (auto split: sum.splits if_splits elim: py_setitem.elims)

lemma validate_analysis_returns_dict:
  assumes "validate_analysis a = Inr r"
  shows "\<exists>d. a = JDict d"
proof (rule ccontr)
  assume nd: "\<nexists>d. a = JDict d"
  from assms obtain merged where m: "merge_defaults defaults a = Inr merged"
    by (auto simp: validate_analysis_def split: sum.splits)
  with nd have "merged = a"
    using merge_defaults_not_dict by blast
  with nd have "\<exists>e. py_get merged ''credibility_score'' (JInt 5) = Inl e"
    by (cases a) auto
  with assms m show False
    by (auto simp: validate_analysis_def split: sum.splits)
qed

lemma validate_analysis_dict:
  "\<exists>d'. (\<forall>k. map_of d' k = (case map_of d k of Some v \<Rightarrow> Some v | None \<Rightarrow> map_of defaults k)) \<and>
     validate_analysis (JDict d) =
       (case py_min_int 10 (coerce_score (parsed_score d)) of Inl e \<Rightarrow> Inl e
        | Inr low \<Rightarrow>
            (case py_max_int 0 low of Inl e \<Rightarrow> Inl e
             | Inr clamped \<Rightarrow> Inr (JDict (AList.update ''credibility_score'' clamped d'))))"
proof -
  from merge_defaults_dict [of defaults d] obtain d' where
    m: "merge_defaults defaults (JDict d) = Inr (JDict d')" and
    l: "\<And>k. map_of d' k = (case map_of d k of Some v \<Rightarrow> Some v | None \<Rightarrow> map_of defaults k)"
    by blast
  have "map_of defaults ''credibility_score'' = Some (JInt 5)"
    by (simp add: defaults_def)
  then have "map_of d' ''credibility_score'' = Some (parsed_score d)"
    by (simp add: l parsed_score_def split: option.splits)
  then have "py_get (JDict d') ''credibility_score'' (JInt 5) = Inr (parsed_score d)"
    by simp
  with m have "validate_analysis (JDict d) =
       (case py_min_int 10 (coerce_score (parsed_score d)) of Inl e \<Rightarrow> Inl e
        | Inr low \<Rightarrow>
            (case py_max_int 0 low of Inl e \<Rightarrow> Inl e
             | Inr clamped \<Rightarrow> Inr (JDict (AList.update ''credibility_score'' clamped d'))))"
    by (simp add: validate_analysis_def split: sum.splits)
  with l show ?thesis
    by blast
qed

lemma clamp_in_range:
  assumes "py_min_int 10 x = Inr low" and "py_max_int 0 low = Inr clamped"
  shows "score_in_range clamped"
proof (cases x)
  case (JFloat f)
  with assms show ?thesis
    by (cases f) (auto simp: py_min_int_def py_max_int_def split: if_splits)
qed (use assms in \<open>auto simp: py_min_int_def py_max_int_def split: if_splits\<close>)

lemma clamp_int:
  "py_min_int 10 (JInt i) = Inr (JInt (min 10 i))"
  "py_max_int 0 (JInt i) = Inr (JInt (max 0 i))"
  by (auto simp: py_min_int_def py_max_int_def)

lemma validate_analysis_result:
  assumes "validate_analysis a = Inr r"
  shows "\<exists>d d' low clamped. a = JDict d \<and> r = JDict d'
     \<and> py_min_int 10 (coerce_score (parsed_score d)) = Inr low
     \<and> py_max_int 0 low = Inr clamped
     \<and> map_of d' ''credibility_score'' = Some clamped
     \<and> (\<forall>k. k \<noteq> ''credibility_score'' \<longrightarrow>
           map_of d' k = (case map_of d k of Some v \<Rightarrow> Some v | None \<Rightarrow> map_of defaults k))"
proof -
  from assms obtain d where a: "a = JDict d"
    using validate_analysis_returns_dict by blast
  from validate_analysis_dict [of d] obtain m where
    l: "\<And>k. map_of m k = (case map_of d k of Some v \<Rightarrow> Some v | None \<Rightarrow> map_of defaults k)" and
    v: "validate_analysis (JDict d) =
       (case py_min_int 10 (coerce_score (parsed_score d)) of Inl e \<Rightarrow> Inl e
        | Inr low \<Rightarrow>
            (case py_max_int 0 low of Inl e \<Rightarrow> Inl e
             | Inr clamped \<Rightarrow> Inr (JDict (AList.update ''credibility_score'' clamped m))))"
    by blast
  from assms a v obtain low clamped where
    lo: "py_min_int 10 (coerce_score (parsed_score d)) = Inr low" and
    cl: "py_max_int 0 low = Inr clamped" and
    r: "r = JDict (AList.update ''credibility_score'' clamped m)"
    by (auto split: sum.splits)
  have "map_of (AList.update ''credibility_score'' clamped m) ''credibility_score'' = Some clamped"
    by (simp add: update_conv')
  moreover have "\<forall>k. k \<noteq> ''credibility_score'' \<longrightarrow>
      map_of (AList.update ''credibility_score'' clamped m) k
        = (case map_of d k of Some v \<Rightarrow> Some v | None \<Rightarrow> map_of defaults k)"
    by (simp add: update_conv' l)
  ultimately show ?thesis
    using a r lo cl by blast
qed

lemma validate_analysis_total_on:
  assumes "py_min_int 10 (coerce_score (parsed_score d)) = Inr low"
    and "py_max_int 0 low = Inr clamped"
  shows "\<exists>r. validate_analysis (JDict d) = Inr r \<and> field r ''credibility_score'' = Some clamped"
proof -
  from validate_analysis_dict [of d] assms obtain m where
    "validate_analysis (JDict d) = Inr (JDict (AList.update ''credibility_score'' clamped m))"
    by auto
  then show ?thesis
    by (simp add: update_conv')
qed

text \<open>
  C6.  Normalisation of the parsed \<open>credibility_score\<close>: the int 15 is stored as 10, the
  int -3 as 0, the string \<open>7\<close> as the int 7, and a string that \<open>int\<close> rejects as the
  default 5.  Whenever normalisation returns a record, the score stored in it lies in
  [0, 10].
\<close>

theorem credibility_score_normalization:
  "(map_of d15 ''credibility_score'' = Some (JInt 15) \<longrightarrow>
      (\<exists>r. validate_analysis (JDict d15) = Inr r \<and> field r ''credibility_score'' = Some (JInt 10)))
   \<and> (map_of dm3 ''credibility_score'' = Some (JInt (- 3)) \<longrightarrow>
      (\<exists>r. validate_analysis (JDict dm3) = Inr r \<and> field r ''credibility_score'' = Some (JInt 0)))
   \<and> (map_of d7 ''credibility_score'' = Some (JStr ''7'') \<longrightarrow>
      (\<exists>r. validate_analysis (JDict d7) = Inr r \<and> field r ''credibility_score'' = Some (JInt 7)))
   \<and> (map_of ds ''credibility_score'' = Some (JStr s) \<and> py_int s = None \<longrightarrow>
      (\<exists>r. validate_analysis (JDict ds) = Inr r \<and> field r ''credibility_score'' = Some (JInt 5)))
   \<and> (validate_analysis a = Inr r \<longrightarrow>
      (\<exists>score. field r ''credibility_score'' = Some score \<and> score_in_range score))"
proof -
  have seven: "py_int ''7'' = Some 7"
    by (simp add: py_int_def int_isspace_def parse_unsigned_def is_digit_def digit_val_def)
  have c1: "map_of d15 ''credibility_score'' = Some (JInt 15) \<Longrightarrow>
      \<exists>r. validate_analysis (JDict d15) = Inr r \<and> field r ''credibility_score'' = Some (JInt 10)"
    by (rule validate_analysis_total_on [where low = "JInt 10"])
       (simp_all add: parsed_score_def clamp_int)
  have c2: "map_of dm3 ''credibility_score'' = Some (JInt (- 3)) \<Longrightarrow>
      \<exists>r. validate_analysis (JDict dm3) = Inr r \<and> field r ''credibility_score'' = Some (JInt 0)"
    by (rule validate_analysis_total_on [where low = "JInt (- 3)"])
       (simp_all add: parsed_score_def clamp_int)
  have c3: "map_of d7 ''credibility_score'' = Some (JStr ''7'') \<Longrightarrow>
      \<exists>r. validate_analysis (JDict d7) = Inr r \<and> field r ''credibility_score'' = Some (JInt 7)"
    by (rule validate_analysis_total_on [where low = "JInt 7"])
       (simp_all add: parsed_score_def clamp_int seven)
  have c4: "map_of ds ''credibility_score'' = Some (JStr s) \<and> py_int s = None \<Longrightarrow>
      \<exists>r. validate_analysis (JDict ds) = Inr r \<and> field r ''credibility_score'' = Some (JInt 5)"
    by (rule validate_analysis_total_on [where low = "JInt 5"])
       (simp_all add: parsed_score_def clamp_int)
  have c5: "validate_analysis a = Inr r \<Longrightarrow>
      \<exists>score. field r ''credibility_score'' = Some score \<and> score_in_range score"
  proof -
    assume "validate_analysis a = Inr r"
    from validate_analysis_result [OF this] obtain d' low clamped x where
      "r = JDict d'" "py_min_int 10 x = Inr low" "py_max_int 0 low = Inr clamped"
      "map_of d' ''credibility_score'' = Some clamped"
      by blast
    then show ?thesis
      using clamp_in_range by auto
  qed
  from c1 c2 c3 c4 c5 show ?thesis
    by blast
qed

theorem credibility_score_normalization_witness:
  "(\<exists>r. validate_analysis (JDict [(''credibility_score'', JInt 15)]) = Inr r
        \<and> field r ''credibility_score'' = Some (JInt 10))
   \<and> (\<exists>r. validate_analysis (JDict [(''verdict'', JStr ''Likely False''),
                                      (''credibility_score'', JInt (- 3))]) = Inr r
        \<and> field r ''credibility_score'' = Some (JInt 0))
   \<and> (\<exists>r. validate_analysis (JDict [(''credibility_score'', JStr ''7'')]) = Inr r
        \<and> field r ''credibility_score'' = Some (JInt 7))
   \<and> (\<exists>r. validate_analysis (JDict [(''credibility_score'', JStr ''high'')]) = Inr r
        \<and> field r ''credibility_score'' = Some (JInt 5))
   \<and> (\<exists>score.
        field (JDict [(''verdict'', JStr ''Likely True''),
                      (''credibility_score'', JFloat (Finite (15 / 2))),
                      (''confidence'', JStr ''Medium''),
                      (''explanation'', JStr ''Analysis could not be completed''),
                      (''key_findings'', JList []),
                      (''red_flags'', JList []),
                      (''supporting_evidence'', JList [])]) ''credibility_score'' = Some score
        \<and> score_in_range score)"
proof -
  have h4: "py_int ''high'' = None"
    by (simp add: py_int_def int_isspace_def parse_unsigned_def is_digit_def digit_val_def)
  have h5: "validate_analysis (JDict [(''verdict'', JStr ''Likely True''),
                                      (''credibility_score'', JFloat (Finite (15 / 2)))])
      = Inr (JDict [(''verdict'', JStr ''Likely True''),
                    (''credibility_score'', JFloat (Finite (15 / 2))),
                    (''confidence'', JStr ''Medium''),
                    (''explanation'', JStr ''Analysis could not be completed''),
                    (''key_findings'', JList []),
                    (''red_flags'', JList []),
                    (''supporting_evidence'', JList [])])"
    by (simp add: validate_analysis_def defaults_def py_min_int_def py_max_int_def)
  from credibility_score_normalization
         [of "[(''credibility_score'', JInt 15)]"
             "[(''verdict'', JStr ''Likely False''), (''credibility_score'', JInt (- 3))]"
             "[(''credibility_score'', JStr ''7'')]"
             "[(''credibility_score'', JStr ''high'')]"
             "''high''"
             "JDict [(''verdict'', JStr ''Likely True''),
                     (''credibility_score'', JFloat (Finite (15 / 2)))]"]
       h4 h5
  show ?thesis
    by simp
qed

text \<open>
  C10.  Normalisation of a parsed dict rewrites \<open>credibility_score\<close> only: under every
  other key the returned record holds the value that the parsed dict had there, and a
  default only where the parsed dict had no such key.  A verdict or an explanation
  supplied by the model is therefore returned as it was.
\<close>

theorem normalization_frame:
  assumes "validate_analysis (JDict d) = Inr r" and "k \<noteq> ''credibility_score''"
  shows "field r k = (case map_of d k of Some v \<Rightarrow> Some v | None \<Rightarrow> map_of defaults k)
     \<and> (map_of d ''verdict'' = Some verdict \<longrightarrow> field r ''verdict'' = Some verdict)
     \<and> (map_of d ''explanation'' = Some explanation \<longrightarrow>
          field r ''explanation'' = Some explanation)"
proof -
  from validate_analysis_result [OF assms(1)] obtain d' where
    r: "r = JDict d'" and
    frame: "\<forall>k. k \<noteq> ''credibility_score'' \<longrightarrow>
       map_of d' k = (case map_of d k of Some v \<Rightarrow> Some v | None \<Rightarrow> map_of defaults k)"
    by auto
  from r frame assms(2) show ?thesis
    by simp
qed

theorem normalization_frame_witness:
  "validate_analysis
     (JDict [(''verdict'', JStr ''Mostly accurate''),
             (''credibility_score'', JInt 15),
             (''explanation'', JStr ''Two of three sources agree.''),
             (''sources_checked'', JInt 3)])
   = Inr (JDict [(''verdict'', JStr ''Mostly accurate''),
                 (''credibility_score'', JInt 10),
                 (''explanation'', JStr ''Two of three sources agree.''),
                 (''sources_checked'', JInt 3),
                 (''confidence'', JStr ''Medium''),
                 (''key_findings'', JList []),
                 (''red_flags'', JList []),
                 (''supporting_evidence'', JList [])])
   \<and> field (JDict [(''verdict'', JStr ''Mostly accurate''),
                 (''credibility_score'', JInt 10),
                 (''explanation'', JStr ''Two of three sources agree.''),
                 (''sources_checked'', JInt 3),
                 (''confidence'', JStr ''Medium''),
                 (''key_findings'', JList []),
                 (''red_flags'', JList []),
                 (''supporting_evidence'', JList [])]) ''sources_checked'' = Some (JInt 3)"
proof -
  have h: "validate_analysis
     (JDict [(''verdict'', JStr ''Mostly accurate''),
             (''credibility_score'', JInt 15),
             (''explanation'', JStr ''Two of three sources agree.''),
             (''sources_checked'', JInt 3)])
   = Inr (JDict [(''verdict'', JStr ''Mostly accurate''),
                 (''credibility_score'', JInt 10),
                 (''explanation'', JStr ''Two of three sources agree.''),
                 (''sources_checked'', JInt 3),
                 (''confidence'', JStr ''Medium''),
                 (''key_findings'', JList []),
                 (''red_flags'', JList []),
                 (''supporting_evidence'', JList [])])"
    by (simp add: validate_analysis_def defaults_def py_min_int_def py_max_int_def)
  have k: "''sources_checked'' \<noteq> ''credibility_score''"
    by simp
  from normalization_frame [OF h k, of "JStr ''Mostly accurate''" "JStr ''Two of three sources agree.''"] h
  show ?thesis
    by simp
qed

section \<open>The analysis record\<close>

lemma merge_defaults_error:
  "merge_defaults ds a = Inl e \<Longrightarrow> e = TypeError"
  by (induction ds a rule: merge_defaults.induct)
     (auto split: sum.splits if_splits elim: py_setitem.elims py_contains.elims)

lemma py_get_error: "py_get a k v = Inl e \<Longrightarrow> e = AttributeError"
  by (cases a) auto

lemma py_min_max_error:
  "py_min_int n x = Inl e \<Longrightarrow> e = TypeError"
  "py_max_int n x = Inl e \<Longrightarrow> e = TypeError"
  by (cases x; auto simp: py_min_int_def py_max_int_def split: sum.splits)+

lemma py_setitem_error: "py_setitem a k v = Inl e \<Longrightarrow> e = TypeError"
  by (cases a) auto

lemma validate_analysis_error:
  assumes "validate_analysis a = Inl e"
  shows "e = TypeError \<or> e = AttributeError"
  using assms
  by (auto simp: validate_analysis_def split: sum.splits
      dest: merge_defaults_error py_get_error py_min_max_error py_setitem_error)

lemma parse_analysis_cases:
  assumes "parse_analysis rt text = Inr r"
  shows "(json_loads rt (extract_json_str text) = Inl JSONDecodeError \<and> r = non_json_fallback text)
       \<or> (\<exists>a. json_loads rt (extract_json_str text) = Inr a \<and> validate_analysis a = Inr r)"
proof (cases "json_loads rt (extract_json_str text)")
  case (Inl e)
  with assms show ?thesis
    by (auto simp: parse_analysis_def parse_analysis_try_def split: if_splits)
next
  case (Inr a)
  show ?thesis
  proof (cases "validate_analysis a")
    case (Inl e)
    then have "e \<noteq> JSONDecodeError"
      using validate_analysis_error by blast
    with assms Inl Inr show ?thesis
      by (simp add: parse_analysis_def parse_analysis_try_def)
  next
    case r: (Inr r')
    with assms Inr show ?thesis
      by (simp add: parse_analysis_def parse_analysis_try_def)
  qed
qed

lemma parse_analysis_decode_error:
  "json_loads rt (extract_json_str text) = Inl JSONDecodeError \<Longrightarrow>
   parse_analysis rt text = Inr (non_json_fallback text)"
  by (simp add: parse_analysis_def parse_analysis_try_def)

lemma parse_analysis_other_error:
  "json_loads rt (extract_json_str text) = Inl e \<Longrightarrow> e \<noteq> JSONDecodeError \<Longrightarrow>
   parse_analysis rt text = Inl e"
  by (simp add: parse_analysis_def parse_analysis_try_def)

lemma parse_analysis_validate_error:
  assumes "json_loads rt (extract_json_str text) = Inr a" and "validate_analysis a = Inl e"
  shows "parse_analysis rt text = Inl e"
proof -
  from assms(2) have "e \<noteq> JSONDecodeError"
    using validate_analysis_error by blast
  with assms show ?thesis
    by (simp add: parse_analysis_def parse_analysis_try_def)
qed

lemma analyze_try_reaches_parse:
  assumes "prepare_context ev = Inr context"
    and "create self (completion_request self claim context) = Inr (Some text # others)"
  shows "analyze_try rt self claim ev = parse_analysis rt text"
  using assms by (simp add: analyze_try_def)

lemma analyze_try_Inr_cases:
  assumes "analyze_try rt self claim ev = Inr r"
  shows "\<exists>context text others. prepare_context ev = Inr context
     \<and> create self (completion_request self claim context) = Inr (Some text # others)
     \<and> parse_analysis rt text = Inr r"
  using assms
  by (auto simp: analyze_try_def split: sum.splits list.splits option.splits)

lemma keys_of_field: "k \<in> keys_of r \<longleftrightarrow> field r k \<noteq> None"
  by (cases r) (auto simp: map_of_eq_None_iff)

lemma validate_analysis_keys:
  assumes "validate_analysis a = Inr r"
  shows "set required_keys \<subseteq> keys_of r"
proof -
  from validate_analysis_result [OF assms] obtain d d' clamped where
    r: "r = JDict d'" and
    sc: "map_of d' ''credibility_score'' = Some clamped" and
    frame: "\<And>k. k \<noteq> ''credibility_score'' \<Longrightarrow>
       map_of d' k = (case map_of d k of Some v \<Rightarrow> Some v | None \<Rightarrow> map_of defaults k)"
    by blast
  have "field r k \<noteq> None" if "k \<in> set required_keys" for k
  proof (cases "k = ''credibility_score''")
    case True
    with r sc show ?thesis by simp
  next
    case False
    from that have "map_of defaults k \<noteq> None"
      by (auto simp: required_keys_def defaults_def)
    with False r show ?thesis
      by (simp add: frame split: option.splits)
  qed
  then show ?thesis
    by (auto simp: keys_of_field)
qed

lemma parse_analysis_keys:
  assumes "parse_analysis rt text = Inr r"
  shows "set required_keys \<subseteq> keys_of r"
  using parse_analysis_cases [OF assms] validate_analysis_keys
  by (auto simp: non_json_fallback_def required_keys_def)

lemma sample_prose:
  "extract_json_str ''I think this is probably true because...''
     = ''I think this is probably true because...''"
  by (simp add: extract_json_str_def py_in_def)

lemma sample_object:
  \<open>extract_json_str ''{"confidence": "Certain"}'' = ''{"confidence": "Certain"}''\<close>
  by (simp add: extract_json_str_def py_in_def py_find_def py_rfind_def py_slice_def
      slice_bound_def)

lemma sample_analysis:
  \<open>analyze_claim sample_runtime (client_answering ''{"confidence": "Certain"}'')
      ''Scientists discover new planet made entirely of diamonds'' []
   = JDict [(''confidence'', JStr ''Certain''),
            (''credibility_score'', JInt 5),
            (''verdict'', JStr ''Uncertain''),
            (''explanation'', JStr ''Analysis could not be completed''),
            (''key_findings'', JList []),
            (''red_flags'', JList []),
            (''supporting_evidence'', JList [])]\<close>
  by (simp add: analyze_claim_def analyze_try_def prepare_context_def client_answering_def
      parse_analysis_def parse_analysis_try_def sample_object sample_runtime_def sample_loads_def
      validate_analysis_def defaults_def py_min_int_def py_max_int_def)

lemma degraded_analysis_failed: "degraded rt e (analysis_failed rt e)"
  by (simp add: degraded_def analysis_failed_def)

lemma keys_of_analysis_failed: "keys_of (analysis_failed rt e) = set scalar_keys"
  by (simp add: analysis_failed_def scalar_keys_def)

lemma scalar_keys_required: "set scalar_keys \<subseteq> set required_keys"
  by (simp add: scalar_keys_def required_keys_def)

text \<open>
  C8.  When \<open>json.loads\<close> raises \<open>JSONDecodeError\<close> on the substring extracted from a
  response text, \<open>_parse_analysis\<close> returns the record whose explanation is the whole
  response text, unchanged, with score 5, verdict \<open>Uncertain\<close>, confidence \<open>Medium\<close> and
  three empty lists; and \<open>analyze_claim\<close> returns that record when the response text is
  the content of the first choice.
\<close>

theorem non_json_response_fallback:
  assumes "json_loads rt (extract_json_str answer) = Inl JSONDecodeError"
  shows "parse_analysis rt answer = Inr (non_json_fallback answer)
     \<and> field (non_json_fallback answer) ''explanation'' = Some (JStr answer)
     \<and> field (non_json_fallback answer) ''credibility_score'' = Some (JInt 5)
     \<and> field (non_json_fallback answer) ''verdict'' = Some (JStr ''Uncertain'')
     \<and> field (non_json_fallback answer) ''confidence'' = Some (JStr ''Medium'')
     \<and> field (non_json_fallback answer) ''key_findings'' = Some (JList [])
     \<and> field (non_json_fallback answer) ''red_flags'' = Some (JList [])
     \<and> field (non_json_fallback answer) ''supporting_evidence'' = Some (JList [])
     \<and> (prepare_context ev = Inr context
          \<and> create self (completion_request self claim context) = Inr (Some answer # others)
        \<longrightarrow> analyze_claim rt self claim ev = non_json_fallback answer)"
proof -
  from assms have p: "parse_analysis rt answer = Inr (non_json_fallback answer)"
    by (rule parse_analysis_decode_error)
  have "prepare_context ev = Inr context
          \<and> create self (completion_request self claim context) = Inr (Some answer # others)
        \<longrightarrow> analyze_claim rt self claim ev = non_json_fallback answer"
    using p by (auto simp: analyze_claim_def analyze_try_reaches_parse)
  with p show ?thesis
    by (simp add: non_json_fallback_def)
qed

theorem non_json_response_fallback_witness:
  "analyze_claim sample_runtime (client_answering ''I think this is probably true because...'')
      ''Scientists discover new planet made entirely of diamonds'' []
   = non_json_fallback ''I think this is probably true because...''
   \<and> field (non_json_fallback ''I think this is probably true because...'') ''explanation''
       = Some (JStr ''I think this is probably true because...'')"
proof -
  have h: "json_loads sample_runtime (extract_json_str ''I think this is probably true because...'')
      = Inl JSONDecodeError"
    by (simp add: sample_prose sample_runtime_def sample_loads_def)
  have c: "prepare_context [] = Inr []"
    by (simp add: prepare_context_def)
  have a: "create (client_answering ''I think this is probably true because...'')
             (completion_request (client_answering ''I think this is probably true because...'')
                ''Scientists discover new planet made entirely of diamonds'' [])
           = Inr [Some ''I think this is probably true because...'']"
    by (simp add: client_answering_def)
  from non_json_response_fallback [OF h, of "[]" "[]"
         "client_answering ''I think this is probably true because...''"
         "''Scientists discover new planet made entirely of diamonds''" "[]"] c a
  show ?thesis
    by blast
qed

text \<open>
  C1, as the code has it.  For every claim and every evidence sequence, the record
  returned by \<open>analyze_claim\<close> has the keys \<open>credibility_score\<close>, \<open>verdict\<close>,
  \<open>confidence\<close> and \<open>explanation\<close>.  When the \<open>try\<close> block completes (a validated model
  output, or the fallback for a response that is not JSON), the record also has the three
  list keys, however malformed the response was.  When the \<open>try\<close> block fails, the record
  has the four scalar keys and no other.
\<close>

theorem analyze_claim_keys:
  "set scalar_keys \<subseteq> keys_of (analyze_claim rt self claim ev)
   \<and> (analyze_try rt self claim ev = Inr r \<longrightarrow>
        analyze_claim rt self claim ev = r \<and> set required_keys \<subseteq> keys_of r)
   \<and> (analyze_try rt self claim ev = Inl e \<longrightarrow>
        keys_of (analyze_claim rt self claim ev) = set scalar_keys)"
proof -
  have ok: "analyze_claim rt self claim ev = r' \<and> set required_keys \<subseteq> keys_of r'"
    if "analyze_try rt self claim ev = Inr r'" for r'
  proof -
    from analyze_try_Inr_cases [OF that] obtain answer where "parse_analysis rt answer = Inr r'"
      by blast
    then have "set required_keys \<subseteq> keys_of r'"
      by (rule parse_analysis_keys)
    with that show ?thesis
      by (simp add: analyze_claim_def)
  qed
  have failed: "keys_of (analyze_claim rt self claim ev) = set scalar_keys"
    if "analyze_try rt self claim ev = Inl e'" for e'
    using that by (simp add: analyze_claim_def keys_of_analysis_failed)
  have "set scalar_keys \<subseteq> keys_of (analyze_claim rt self claim ev)"
  proof (cases "analyze_try rt self claim ev")
    case (Inl e')
    with failed show ?thesis by blast
  next
    case (Inr r')
    from ok [OF this] scalar_keys_required show ?thesis
      by blast
  qed
  with ok failed show ?thesis
    by blast
qed

theorem analyze_claim_keys_witness:
  "analyze_try sample_runtime (client_raising (OtherError ''Connection error.''))
       ''Scientists discover new planet made entirely of diamonds'' []
     = Inl (OtherError ''Connection error.'')
   \<and> keys_of (analyze_claim sample_runtime (client_raising (OtherError ''Connection error.''))
                ''Scientists discover new planet made entirely of diamonds'' [])
       = set scalar_keys"
proof -
  have h: "analyze_try sample_runtime (client_raising (OtherError ''Connection error.''))
       ''Scientists discover new planet made entirely of diamonds'' []
     = Inl (OtherError ''Connection error.'')"
    by (simp add: analyze_try_def prepare_context_def client_raising_def)
  from analyze_claim_keys [of sample_runtime "client_raising (OtherError ''Connection error.'')"
        "''Scientists discover new planet made entirely of diamonds''" "[]" "JNull"
        "OtherError ''Connection error.''"] h
  show ?thesis
    by simp
qed

text \<open>
  The record returned when the model request fails has no \<open>key_findings\<close>, \<open>red_flags\<close>
  or \<open>supporting_evidence\<close>: not every returned record has all the required keys.
\<close>

theorem analyze_claim_keys_counterexample:
  "\<not> set required_keys
       \<subseteq> keys_of (analyze_claim sample_runtime (client_raising (OtherError ''Connection error.''))
                    ''Scientists discover new planet made entirely of diamonds'' [])"
proof -
  have "analyze_claim sample_runtime (client_raising (OtherError ''Connection error.''))
          ''Scientists discover new planet made entirely of diamonds'' []
        = analysis_failed sample_runtime (OtherError ''Connection error.'')"
    by (simp add: analyze_claim_def analyze_try_def prepare_context_def client_raising_def)
  moreover have "''key_findings'' \<notin> set scalar_keys"
    by (simp add: scalar_keys_def)
  moreover have "''key_findings'' \<in> set required_keys"
    by (simp add: required_keys_def)
  ultimately show ?thesis
    by (auto simp: keys_of_analysis_failed)
qed

text \<open>
  C3.  \<open>analyze_claim\<close> is total: the handler turns every failure \<open>e\<close> of the \<open>try\<close>
  block into the degraded record, with score 0, verdict \<open>Analysis Failed\<close>, confidence
  \<open>Low\<close> and an explanation that carries the text of \<open>e\<close>.  The failures are: an error
  while the context is assembled, an error of the model request, a response without
  choices or without text, an exception of \<open>json.loads\<close> other than \<open>JSONDecodeError\<close>,
  and an error raised by normalisation.
\<close>

theorem analyze_claim_degraded:
  "(analyze_try rt self claim ev = Inl e \<longrightarrow> degraded rt e (analyze_claim rt self claim ev))
   \<and> (prepare_context ev = Inl e1 \<longrightarrow> degraded rt e1 (analyze_claim rt self claim ev))
   \<and> (prepare_context ev = Inr context
        \<and> create self (completion_request self claim context) = Inl e2
        \<longrightarrow> degraded rt e2 (analyze_claim rt self claim ev))
   \<and> (prepare_context ev = Inr context
        \<and> create self (completion_request self claim context) = Inr []
        \<longrightarrow> degraded rt IndexError (analyze_claim rt self claim ev))
   \<and> (prepare_context ev = Inr context
        \<and> create self (completion_request self claim context) = Inr (None # others)
        \<longrightarrow> degraded rt TypeError (analyze_claim rt self claim ev))
   \<and> (prepare_context ev = Inr context
        \<and> create self (completion_request self claim context) = Inr (Some answer # others)
        \<and> json_loads rt (extract_json_str answer) = Inl e3 \<and> e3 \<noteq> JSONDecodeError
        \<longrightarrow> degraded rt e3 (analyze_claim rt self claim ev))
   \<and> (prepare_context ev = Inr context
        \<and> create self (completion_request self claim context) = Inr (Some answer # others)
        \<and> json_loads rt (extract_json_str answer) = Inr parsed \<and> validate_analysis parsed = Inl e4
        \<longrightarrow> degraded rt e4 (analyze_claim rt self claim ev))"
proof -
  have main: "analyze_try rt self claim ev = Inl x \<Longrightarrow> degraded rt x (analyze_claim rt self claim ev)"
    for x
    by (simp add: analyze_claim_def degraded_analysis_failed)
  have c1: "prepare_context ev = Inl e1 \<Longrightarrow> analyze_try rt self claim ev = Inl e1"
    by (simp add: analyze_try_def)
  have c2: "prepare_context ev = Inr context
        \<and> create self (completion_request self claim context) = Inl e2
        \<Longrightarrow> analyze_try rt self claim ev = Inl e2"
    by (simp add: analyze_try_def)
  have c3: "prepare_context ev = Inr context
        \<and> create self (completion_request self claim context) = Inr []
        \<Longrightarrow> analyze_try rt self claim ev = Inl IndexError"
    by (simp add: analyze_try_def)
  have c4: "prepare_context ev = Inr context
        \<and> create self (completion_request self claim context) = Inr (None # others)
        \<Longrightarrow> analyze_try rt self claim ev = Inl TypeError"
    by (simp add: analyze_try_def)
  have c5: "prepare_context ev = Inr context
        \<and> create self (completion_request self claim context) = Inr (Some answer # others)
        \<and> json_loads rt (extract_json_str answer) = Inl e3 \<and> e3 \<noteq> JSONDecodeError
        \<Longrightarrow> analyze_try rt self claim ev = Inl e3"
    by (simp add: analyze_try_reaches_parse parse_analysis_other_error)
  have c6: "prepare_context ev = Inr context
        \<and> create self (completion_request self claim context) = Inr (Some answer # others)
        \<and> json_loads rt (extract_json_str answer) = Inr parsed \<and> validate_analysis parsed = Inl e4
        \<Longrightarrow> analyze_try rt self claim ev = Inl e4"
    by (simp add: analyze_try_reaches_parse parse_analysis_validate_error)
  from main c1 c2 c3 c4 c5 c6 show ?thesis
    by blast
qed

theorem analyze_claim_degraded_witness:
  "analyze_claim sample_runtime (client_raising (OtherError ''Connection error.''))
      ''Scientists discover new planet made entirely of diamonds'' (get_fallback_results ''q'')
   = JDict [(''credibility_score'', JInt 0),
            (''verdict'', JStr ''Analysis Failed''),
            (''explanation'', JStr ''Could not complete analysis: Connection error.''),
            (''confidence'', JStr ''Low'')]
   \<and> degraded sample_runtime (KeyError ''link'')
        (analyze_claim sample_runtime (client_answering ''I think this is probably true because...'')
           ''Scientists discover new planet made entirely of diamonds''
           [[(''title'', Some ''A headline'')]])"
proof -
  have k: "prepare_context [[(''title'', Some ''A headline'')]] = Inl (KeyError ''link'')"
    by (simp add: prepare_context_def getitem_def)
  have a: "analyze_claim sample_runtime (client_raising (OtherError ''Connection error.''))
      ''Scientists discover new planet made entirely of diamonds'' (get_fallback_results ''q'')
   = JDict [(''credibility_score'', JInt 0),
            (''verdict'', JStr ''Analysis Failed''),
            (''explanation'', JStr ''Could not complete analysis: Connection error.''),
            (''confidence'', JStr ''Low'')]"
    by (simp add: analyze_claim_def analyze_try_def prepare_context_def getitem_def
        get_fallback_results_def client_raising_def analysis_failed_def sample_runtime_def)
  from analyze_claim_degraded [of sample_runtime
         "client_answering ''I think this is probably true because...''"
         "''Scientists discover new planet made entirely of diamonds''"
         "[[(''title'', Some ''A headline'')]]" "KeyError ''link''" "KeyError ''link''"] k a
  show ?thesis
    by simp
qed

text \<open>
  C4, as the code has it.  The confidence of a returned record is \<open>Low\<close> when the \<open>try\<close>
  block fails, \<open>Medium\<close> when the response is not JSON or the parsed output has no
  \<open>confidence\<close> key, and otherwise the value that the parsed output has under
  \<open>confidence\<close>, whatever it is: the value is not compared with the three allowed strings.
\<close>

theorem analyze_claim_confidence:
  "(analyze_try rt self claim ev = Inl e \<longrightarrow>
       field (analyze_claim rt self claim ev) ''confidence'' = Some (JStr ''Low''))
   \<and> (analyze_try rt self claim ev = Inr r \<longrightarrow>
       analyze_claim rt self claim ev = r
       \<and> (\<exists>context answer others.
             prepare_context ev = Inr context
             \<and> create self (completion_request self claim context) = Inr (Some answer # others)
             \<and> ((json_loads rt (extract_json_str answer) = Inl JSONDecodeError
                   \<and> field r ''confidence'' = Some (JStr ''Medium''))
                \<or> (\<exists>d. json_loads rt (extract_json_str answer) = Inr (JDict d)
                     \<and> field r ''confidence''
                         = Some (case map_of d ''confidence'' of None \<Rightarrow> JStr ''Medium''
                                 | Some v \<Rightarrow> v)))))"
proof -
  have failed: "field (analyze_claim rt self claim ev) ''confidence'' = Some (JStr ''Low'')"
    if "analyze_try rt self claim ev = Inl e"
    using that by (simp add: analyze_claim_def analysis_failed_def)
  have ok: "analyze_claim rt self claim ev = r
       \<and> (\<exists>context answer others.
             prepare_context ev = Inr context
             \<and> create self (completion_request self claim context) = Inr (Some answer # others)
             \<and> ((json_loads rt (extract_json_str answer) = Inl JSONDecodeError
                   \<and> field r ''confidence'' = Some (JStr ''Medium''))
                \<or> (\<exists>d. json_loads rt (extract_json_str answer) = Inr (JDict d)
                     \<and> field r ''confidence''
                         = Some (case map_of d ''confidence'' of None \<Rightarrow> JStr ''Medium''
                                 | Some v \<Rightarrow> v))))"
    if t: "analyze_try rt self claim ev = Inr r"
  proof -
    from analyze_try_Inr_cases [OF t] obtain ctx answer others where
      c: "prepare_context ev = Inr ctx"
         "create self (completion_request self claim ctx) = Inr (Some answer # others)" and
      p: "parse_analysis rt answer = Inr r"
      by blast
    from parse_analysis_cases [OF p] have
      "(json_loads rt (extract_json_str answer) = Inl JSONDecodeError
          \<and> field r ''confidence'' = Some (JStr ''Medium''))
       \<or> (\<exists>d. json_loads rt (extract_json_str answer) = Inr (JDict d)
            \<and> field r ''confidence''
                = Some (case map_of d ''confidence'' of None \<Rightarrow> JStr ''Medium'' | Some v \<Rightarrow> v))"
    proof
      assume "json_loads rt (extract_json_str answer) = Inl JSONDecodeError
                \<and> r = non_json_fallback answer"
      then show ?thesis
        by (simp add: non_json_fallback_def)
    next
      assume "\<exists>a. json_loads rt (extract_json_str answer) = Inr a \<and> validate_analysis a = Inr r"
      then obtain a where l: "json_loads rt (extract_json_str answer) = Inr a"
        and v: "validate_analysis a = Inr r"
        by blast
      from validate_analysis_result [OF v] obtain d d' where
        a: "a = JDict d" and r: "r = JDict d'" and
        frame: "\<And>k. k \<noteq> ''credibility_score'' \<Longrightarrow>
           map_of d' k = (case map_of d k of Some v \<Rightarrow> Some v | None \<Rightarrow> map_of defaults k)"
        by blast
      have "map_of defaults ''confidence'' = Some (JStr ''Medium'')"
        by (simp add: defaults_def)
      with r have "field r ''confidence''
                = Some (case map_of d ''confidence'' of None \<Rightarrow> JStr ''Medium'' | Some v \<Rightarrow> v)"
        by (simp add: frame split: option.splits)
      with l a show ?thesis
        by blast
    qed
    with c t show ?thesis
      by (auto simp: analyze_claim_def)
  qed
  from failed ok show ?thesis
    by blast
qed

theorem analyze_claim_confidence_witness:
  \<open>field (analyze_claim sample_runtime (client_answering ''{"confidence": "Certain"}'')
            ''Scientists discover new planet made entirely of diamonds'' [])
      ''confidence'' = Some (JStr ''Certain'')
    \<and> field (analyze_claim sample_runtime (client_raising (OtherError ''Connection error.''))
            ''Scientists discover new planet made entirely of diamonds'' [])
      ''confidence'' = Some (JStr ''Low'')\<close>
proof -
  have h: "analyze_try sample_runtime (client_raising (OtherError ''Connection error.''))
       ''Scientists discover new planet made entirely of diamonds'' []
     = Inl (OtherError ''Connection error.'')"
    by (simp add: analyze_try_def prepare_context_def client_raising_def)
  from analyze_claim_confidence [of sample_runtime "client_raising (OtherError ''Connection error.'')"
        "''Scientists discover new planet made entirely of diamonds''" "[]"
        "OtherError ''Connection error.''" JNull] h
  show ?thesis
    by (simp add: sample_analysis)
qed

text \<open>
  A model output whose confidence is \<open>Certain\<close> is returned with that confidence.
\<close>

theorem analyze_claim_confidence_counterexample:
  \<open>\<not> allowed_confidence
        (field (analyze_claim sample_runtime (client_answering ''{"confidence": "Certain"}'')
                  ''Scientists discover new planet made entirely of diamonds'' [])
           ''confidence'')\<close>
  by (simp add: sample_analysis allowed_confidence_def)

section \<open>Searching in strings\<close>

lemma occurs_Cons:
  "occurs sub (c # cs) \<longleftrightarrow> prefix sub (c # cs) \<or> occurs sub cs"
proof
  assume "occurs sub (c # cs)"
  then obtain k where k: "k \<le> length (c # cs)" "prefix sub (drop k (c # cs))"
    by (auto simp: occurs_def)
  show "prefix sub (c # cs) \<or> occurs sub cs"
  proof (cases k)
    case 0
    with k show ?thesis by simp
  next
    case (Suc k')
    with k have "k' \<le> length cs" "prefix sub (drop k' cs)"
      by simp_all
    then show ?thesis
      by (auto simp: occurs_def)
  qed
next
  assume "prefix sub (c # cs) \<or> occurs sub cs"
  then show "occurs sub (c # cs)"
  proof
    assume "prefix sub (c # cs)"
    then have "0 \<le> length (c # cs) \<and> prefix sub (drop 0 (c # cs))"
      by simp
    then show ?thesis
      unfolding occurs_def by blast
  next
    assume "occurs sub cs"
    then obtain k where "k \<le> length cs" "prefix sub (drop k cs)"
      by (auto simp: occurs_def)
    then have "Suc k \<le> length (c # cs) \<and> prefix sub (drop (Suc k) (c # cs))"
      by simp
    then show ?thesis
      unfolding occurs_def by blast
  qed
qed

lemma occurs_Nil: "occurs sub [] \<longleftrightarrow> sub = []"
  by (simp add: occurs_def)

lemma find_aux_None: "find_aux sub s i = None \<longleftrightarrow> \<not> occurs sub s"
  by (induction s arbitrary: i) (simp_all add: occurs_Nil occurs_Cons)

lemma py_in_occurs: "py_in sub s \<longleftrightarrow> occurs sub s"
  by (simp add: py_in_def find_aux_None)

lemma first_at_0: "prefix sub s \<Longrightarrow> first_at sub s 0"
  by (simp add: first_at_def)

lemma first_at_Suc:
  "\<not> prefix sub (c # cs) \<Longrightarrow> first_at sub (c # cs) (Suc n) \<longleftrightarrow> first_at sub cs n"
proof
  assume np: "\<not> prefix sub (c # cs)" and "first_at sub (c # cs) (Suc n)"
  then have a: "n \<le> length cs" "prefix sub (drop n cs)"
    and b: "\<forall>k<Suc n. \<not> prefix sub (drop k (c # cs))"
    by (simp_all add: first_at_def)
  have "\<not> prefix sub (drop k cs)" if "k < n" for k
    using b that by (auto dest: spec [of _ "Suc k"])
  with a show "first_at sub cs n"
    by (simp add: first_at_def)
next
  assume np: "\<not> prefix sub (c # cs)" and f: "first_at sub cs n"
  have "\<not> prefix sub (drop k (c # cs))" if "k < Suc n" for k
  proof (cases k)
    case 0
    with np show ?thesis by simp
  next
    case (Suc k')
    with that f show ?thesis
      by (simp add: first_at_def)
  qed
  with f show "first_at sub (c # cs) (Suc n)"
    by (simp add: first_at_def)
qed

lemma first_at_unique: "first_at sub s n \<Longrightarrow> first_at sub s m \<Longrightarrow> n = m"
  unfolding first_at_def by (meson linorder_neqE_nat)

lemma find_aux_first_at:
  "first_at sub s n \<Longrightarrow> find_aux sub s i = Some (i + n)"
proof (induction s arbitrary: i n)
  case Nil
  then show ?case
    by (simp add: first_at_def)
next
  case (Cons c cs)
  show ?case
  proof (cases "prefix sub (c # cs)")
    case True
    then have "first_at sub (c # cs) 0"
      by (rule first_at_0)
    with Cons.prems have "n = 0"
      by (rule first_at_unique)
    with True show ?thesis by simp
  next
    case False
    with Cons.prems obtain n' where n: "n = Suc n'"
      by (cases n) (auto simp: first_at_def)
    with False Cons.prems have "first_at sub cs n'"
      by (simp add: first_at_Suc)
    from Cons.IH [OF this, of "Suc i"] False n show ?thesis
      by simp
  qed
qed

lemma first_at_occurs: "first_at sub s n \<Longrightarrow> occurs sub s"
  unfolding first_at_def occurs_def by blast

lemma first_at_length: "first_at sub s n \<Longrightarrow> n + length sub \<le> length s"
  unfolding first_at_def by (auto dest: prefix_length_le)

lemma rfind_aux_absent: "\<not> occurs sub s \<Longrightarrow> rfind_aux sub s i found = found"
  by (induction s arbitrary: i found) (simp_all add: occurs_Nil occurs_Cons)

lemma last_at_0_absent:
  assumes "last_at sub (c # cs) 0"
  shows "\<not> occurs sub cs"
proof
  assume "occurs sub cs"
  then obtain k where "k \<le> length cs" "prefix sub (drop k cs)"
    by (auto simp: occurs_def)
  then have "0 < Suc k \<and> Suc k \<le> length (c # cs)" "prefix sub (drop (Suc k) (c # cs))"
    by simp_all
  with assms show False
    unfolding last_at_def by blast
qed

lemma last_at_Suc: "last_at sub (c # cs) (Suc n) \<Longrightarrow> last_at sub cs n"
proof -
  assume l: "last_at sub (c # cs) (Suc n)"
  have "\<not> prefix sub (drop k cs)" if "n < k \<and> k \<le> length cs" for k
  proof -
    from that have "Suc n < Suc k \<and> Suc k \<le> length (c # cs)"
      by simp
    with l have "\<not> prefix sub (drop (Suc k) (c # cs))"
      unfolding last_at_def by blast
    then show ?thesis by simp
  qed
  with l show ?thesis
    by (simp add: last_at_def)
qed

lemma rfind_aux_last_at:
  "last_at sub s n \<Longrightarrow> rfind_aux sub s i found = int (i + n)"
proof (induction s arbitrary: i n found)
  case Nil
  then show ?case
    by (simp add: last_at_def)
next
  case (Cons c cs)
  show ?case
  proof (cases n)
    case 0
    with Cons.prems have l0: "last_at sub (c # cs) 0"
      by simp
    then have "\<not> occurs sub cs"
      by (rule last_at_0_absent)
    moreover from l0 have "prefix sub (c # cs)"
      by (simp add: last_at_def)
    ultimately have "\<not> occurs sub cs" and "prefix sub (c # cs)"
      by simp_all
    with 0 show ?thesis
      by (simp add: rfind_aux_absent)
  next
    case (Suc n')
    with Cons.prems have "last_at sub cs n'"
      by (auto dest: last_at_Suc)
    from Cons.IH [OF this] Suc show ?thesis
      by simp
  qed
qed

lemma py_find_first_at:
  assumes "start \<le> length s" and "first_at sub (drop start s) n"
  shows "py_find s sub start = int (start + n)"
  using assms find_aux_first_at [of sub "drop start s" n start]
  by (simp add: py_find_def)

lemma py_find_absent:
  assumes "\<not> occurs sub (drop start s)"
  shows "py_find s sub start = - 1"
proof -
  from assms have "find_aux sub (drop start s) start = None"
    by (simp add: find_aux_None)
  then show ?thesis
    by (simp add: py_find_def)
qed

lemma py_rfind_last_at: "last_at sub s n \<Longrightarrow> py_rfind s sub = int n"
  using rfind_aux_last_at [of sub s n 0 "- 1"] by (simp add: py_rfind_def)

lemma py_slice_nonneg:
  assumes "i \<le> j" and "j \<le> length s"
  shows "py_slice s (int i) (int j) = take (j - i) (drop i s)"
  using assms by (simp add: py_slice_def slice_bound_def drop_take)

lemma py_slice_to_last:
  assumes "i \<le> length s"
  shows "py_slice s (int i) (- 1) = drop i (butlast s)"
proof -
  have "slice_bound (length s) (- 1) = length s - 1"
    by (simp add: slice_bound_def)
  moreover have "slice_bound (length s) (int i) = i"
    using assms by (simp add: slice_bound_def)
  ultimately show ?thesis
    by (simp add: py_slice_def butlast_conv_take)
qed

lemma extract_fenced:
  assumes marker: "first_at ''```json'' a n"
    and fence: "first_at ''```'' (drop (n + 7) a) m"
  shows "extract_json_str a = py_strip (take m (drop (n + 7) a))"
proof -
  from marker have inside: "py_in ''```json'' a"
    by (simp add: py_in_occurs first_at_occurs)
  from marker have start: "py_find a ''```json'' 0 = int n"
    using py_find_first_at [of 0 a "''```json''" n] by simp
  from marker have len: "n + 7 \<le> length a"
    using first_at_length [of "''```json''" a n] by simp
  from fence have m: "n + 7 + m \<le> length a"
    using first_at_length [of "''```''" "drop (n + 7) a" m] len by simp
  from len fence have stop: "py_find a ''```'' (n + 7) = int (n + 7 + m)"
    by (rule py_find_first_at)
  have js: "py_find a ''```json'' 0 + 7 = int (n + 7)"
    using start by simp
  have "extract_json_str a
      = py_strip (py_slice a (int (n + 7)) (py_find a ''```'' (nat (int (n + 7)))))"
    using inside by (simp only: extract_json_str_def Let_def if_True js)
  also have "\<dots> = py_strip (py_slice a (int (n + 7)) (int (n + 7 + m)))"
    by (simp only: nat_int stop)
  also have "\<dots> = py_strip (take m (drop (n + 7) a))"
    using py_slice_nonneg [of "n + 7" "n + 7 + m" a] m by simp
  finally show ?thesis .
qed

lemma extract_unclosed_fence:
  assumes marker: "first_at ''```json'' a n"
    and nofence: "\<not> occurs ''```'' (drop (n + 7) a)"
  shows "extract_json_str a = py_strip (drop (n + 7) (butlast a))"
proof -
  from marker have inside: "py_in ''```json'' a"
    by (simp add: py_in_occurs first_at_occurs)
  from marker have start: "py_find a ''```json'' 0 = int n"
    using py_find_first_at [of 0 a "''```json''" n] by simp
  from marker have len: "n + 7 \<le> length a"
    using first_at_length [of "''```json''" a n] by simp
  from nofence have stop: "py_find a ''```'' (n + 7) = - 1"
    by (rule py_find_absent)
  have js: "py_find a ''```json'' 0 + 7 = int (n + 7)"
    using start by simp
  have "extract_json_str a
      = py_strip (py_slice a (int (n + 7)) (py_find a ''```'' (nat (int (n + 7)))))"
    using inside by (simp only: extract_json_str_def Let_def if_True js)
  also have "\<dots> = py_strip (py_slice a (int (n + 7)) (- 1))"
    by (simp only: nat_int stop)
  also have "\<dots> = py_strip (drop (n + 7) (butlast a))"
    using len by (simp only: py_slice_to_last)
  finally show ?thesis .
qed

lemma occurs_single: "occurs [c] s \<longleftrightarrow> c \<in> set s"
  by (induction s) (simp_all add: occurs_Nil occurs_Cons)

lemma extract_braces:
  assumes nomarker: "\<not> occurs ''```json'' a"
    and opens: "first_at ''{'' a i"
    and closes: "last_at ''}'' a j"
  shows "extract_json_str a = drop i (take (Suc j) a)"
proof -
  from nomarker have outside: "\<not> py_in ''```json'' a"
    by (simp add: py_in_occurs)
  from opens have o: "py_in ''{'' a"
    by (simp add: py_in_occurs first_at_occurs)
  from closes have "occurs ''}'' a"
    unfolding last_at_def occurs_def by blast
  then have c: "py_in ''}'' a"
    by (simp add: py_in_occurs)
  from opens have start: "py_find a ''{'' 0 = int i"
    using py_find_first_at [of 0 a "''{''" i] by simp
  from closes have stop: "py_rfind a ''}'' = int j"
    by (rule py_rfind_last_at)
  from opens have i: "i < length a"
    using first_at_length [of "''{''" a i] by simp
  from closes have j: "j < length a"
    unfolding last_at_def by (auto dest: prefix_length_le)
  have sl: "py_slice a (int i) (int j + 1) = drop i (take (Suc j) a)"
    using i j by (simp add: py_slice_def slice_bound_def nat_add_distrib)
  have "extract_json_str a = py_slice a (py_find a ''{'' 0) (py_rfind a ''}'' + 1)"
    using outside o c by (simp only: extract_json_str_def Let_def if_False if_True simp_thms)
  also have "\<dots> = drop i (take (Suc j) a)"
    by (simp only: start stop sl)
  finally show ?thesis .
qed

lemma extract_verbatim:
  assumes "\<not> occurs ''```json'' a" and "CHR ''{'' \<notin> set a \<or> CHR ''}'' \<notin> set a"
  shows "extract_json_str a = a"
proof -
  from assms(1) have outside: "\<not> py_in ''```json'' a"
    by (simp add: py_in_occurs)
  from assms(2) have "\<not> (py_in ''{'' a \<and> py_in ''}'' a)"
    by (simp add: py_in_occurs occurs_single)
  with outside show ?thesis
    by (simp only: extract_json_str_def if_False)
qed

lemma first_at_find_aux:
  "find_aux sub s i = Some j \<Longrightarrow> i \<le> j \<and> first_at sub s (j - i)"
proof (induction s arbitrary: i)
  case Nil
  then show ?case
    by (simp add: first_at_def split: if_splits)
next
  case (Cons c cs)
  show ?case
  proof (cases "prefix sub (c # cs)")
    case True
    with Cons.prems show ?thesis
      by (simp add: first_at_0)
  next
    case False
    with Cons.prems have "find_aux sub cs (Suc i) = Some j"
      by simp
    from Cons.IH [OF this] have le: "Suc i \<le> j" and f: "first_at sub cs (j - Suc i)"
      by simp_all
    from le have "j - i = Suc (j - Suc i)"
      by simp
    with False f le show ?thesis
      by (simp add: first_at_Suc)
  qed
qed

lemma prefix_single: "prefix [c] s \<longleftrightarrow> (\<exists>t. s = c # t)"
  by (cases s) auto

lemma first_at_single:
  assumes "c \<notin> set pre"
  shows "first_at [c] (pre @ c # post) (length pre)"
proof -
  have "\<not> prefix [c] (drop k (pre @ c # post))" if "k < length pre" for k
  proof
    assume "prefix [c] (drop k (pre @ c # post))"
    moreover from that have "drop k (pre @ c # post) = drop k pre @ c # post"
      by simp
    ultimately obtain t where "drop k pre @ c # post = c # t"
      by (auto simp: prefix_single)
    moreover from that have "drop k pre \<noteq> []"
      by simp
    ultimately have "hd (drop k pre) = c"
      by (cases "drop k pre") auto
    moreover from that have "hd (drop k pre) \<in> set pre"
      by (metis \<open>drop k pre \<noteq> []\<close> hd_in_set in_set_dropD)
    ultimately show False
      using assms by simp
  qed
  then show ?thesis
    by (simp add: first_at_def)
qed

lemma last_at_single:
  assumes "c \<notin> set post"
  shows "last_at [c] (pre @ c # post) (length pre)"
proof -
  have "\<not> prefix [c] (drop k (pre @ c # post))" if "length pre < k" for k
  proof
    assume p: "prefix [c] (drop k (pre @ c # post))"
    from that have "drop k (pre @ c # post) = drop (k - Suc (length pre)) post"
      by (simp add: Suc_diff_Suc drop_Cons')
    with p have "c \<in> set (drop (k - Suc (length pre)) post)"
      by (auto simp: prefix_single)
    then have "c \<in> set post"
      by (rule in_set_dropD)
    with assms show False
      by simp
  qed
  then show ?thesis
    by (simp add: last_at_def)
qed

text \<open>
  A response that opens a fence and never closes it: \<open>find\<close> returns -1 for the
  closing fence, so the slice ends before the last character of the response.
\<close>

lemma unclosed_fence_example:
  \<open>extract_json_str ''```json{"a": 1}'' = ''{"a": 1''\<close>
  by (simp add: extract_json_str_def py_in_def py_find_def py_slice_def slice_bound_def
      py_strip_def py_lstrip_def py_rstrip_def py_isspace_def)

section \<open>Extraction of the JSON substring\<close>

text \<open>
  C7, as the code has it.  The substring handed to \<open>json.loads\<close> is chosen in a fixed
  order.  (a) If the marker \<open>```json\<close> occurs, the fenced branch is taken, whatever braces
  the text has: when a fence \<open>```\<close> follows the first marker, the substring is the content
  between that marker and the next fence, with leading and trailing whitespace removed.
  (b) If the marker does not occur and both braces occur: the span from the first opening
  brace to the last closing brace, inclusive (empty when the last closing brace comes
  first).  (c) If the marker does not occur and a brace is missing: the whole text.  A
  response wrapped in a \<open>```json\<close> fence yields exactly the object inside.  The statement
  says nothing about a marker that no fence follows.
\<close>

theorem json_extraction_order:
  \<open>(first_at ''```json'' a1 n \<and> first_at ''```'' (drop (n + 7) a1) m \<longrightarrow>
       extract_json_str a1 = py_strip (take m (drop (n + 7) a1)))
   \<and> (\<not> occurs ''```json'' a2 \<and> first_at ''{'' a2 i \<and> last_at ''}'' a2 j \<longrightarrow>
       extract_json_str a2 = drop i (take (Suc j) a2))
   \<and> (\<not> occurs ''```json'' a3 \<and> (CHR ''{'' \<notin> set a3 \<or> CHR ''}'' \<notin> set a3) \<longrightarrow>
       extract_json_str a3 = a3)
   \<and> extract_json_str
         (''```json\<newline>'' @ ''{"credibility_score": 8, "verdict":"Likely True"}'' @ ''\<newline>```'')
       = ''{"credibility_score": 8, "verdict":"Likely True"}''\<close>
proof -
  have ex: \<open>extract_json_str
         (''```json\<newline>'' @ ''{"credibility_score": 8, "verdict":"Likely True"}'' @ ''\<newline>```'')
       = ''{"credibility_score": 8, "verdict":"Likely True"}''\<close>
    by (simp add: extract_json_str_def py_in_def py_find_def py_slice_def slice_bound_def
        py_strip_def py_lstrip_def py_rstrip_def py_isspace_def)
  from extract_fenced extract_braces extract_verbatim ex show ?thesis
    by blast
qed

theorem json_extraction_order_witness:
  \<open>extract_json_str ''Here it is: ```json {"a": 1} ``` Done.'' = ''{"a": 1}''
   \<and> extract_json_str ''Result {"a": {"b": 2}} follows'' = ''{"a": {"b": 2}}''
   \<and> extract_json_str ''} no object {'' = ''''
   \<and> extract_json_str ''plain words'' = ''plain words''\<close>
proof -
  have m1: \<open>first_at ''```json'' ''Here it is: ```json {"a": 1} ``` Done.'' 12\<close>
    using first_at_find_aux [of \<open>''```json''\<close> \<open>''Here it is: ```json {"a": 1} ``` Done.''\<close> 0 12]
    by simp
  have f1: \<open>first_at ''```'' (drop (12 + 7) ''Here it is: ```json {"a": 1} ``` Done.'') 10\<close>
    using first_at_find_aux [of \<open>''```''\<close> \<open>'' {"a": 1} ``` Done.''\<close> 0 10]
    by simp
  have s1: \<open>py_strip (take 10 (drop (12 + 7) ''Here it is: ```json {"a": 1} ``` Done.'')) = ''{"a": 1}''\<close>
    by (simp add: py_strip_def py_lstrip_def py_rstrip_def py_isspace_def)
  have n2: \<open>\<not> occurs ''```json'' ''Result {"a": {"b": 2}} follows''\<close>
    by (simp add: find_aux_None [of _ _ 0, symmetric])
  have o2: \<open>first_at ''{'' ''Result {"a": {"b": 2}} follows'' 7\<close>
    using first_at_single [of \<open>CHR ''{''\<close> \<open>''Result ''\<close> \<open>''"a": {"b": 2}} follows''\<close>]
    by (simp add: eval_nat_numeral)
  have c2: \<open>last_at ''}'' ''Result {"a": {"b": 2}} follows'' 21\<close>
    using last_at_single [of \<open>CHR ''}''\<close> \<open>'' follows''\<close> \<open>''Result {"a": {"b": 2}''\<close>]
    by (simp add: eval_nat_numeral)
  have n3: \<open>\<not> occurs ''```json'' ''plain words''\<close>
    by (simp add: find_aux_None [of _ _ 0, symmetric])
  have b3: \<open>CHR ''{'' \<notin> set ''plain words''\<close>
    by simp
  have n4: \<open>\<not> occurs ''```json'' ''} no object {''\<close>
    by (simp add: find_aux_None [of _ _ 0, symmetric])
  have o4: \<open>first_at ''{'' ''} no object {'' 12\<close>
    using first_at_single [of \<open>CHR ''{''\<close> \<open>''} no object ''\<close> \<open>''''\<close>]
    by (simp add: eval_nat_numeral)
  have c4: \<open>last_at ''}'' ''} no object {'' 0\<close>
    using last_at_single [of \<open>CHR ''}''\<close> \<open>'' no object {''\<close> \<open>''''\<close>]
    by (simp add: eval_nat_numeral)
  from json_extraction_order
         [of \<open>''Here it is: ```json {"a": 1} ``` Done.''\<close> 12 10
             \<open>''Result {"a": {"b": 2}} follows''\<close> 7 21 \<open>''plain words''\<close>]
       m1 f1 s1 n2 o2 c2 n3 b3
  have first3: \<open>extract_json_str ''Here it is: ```json {"a": 1} ``` Done.'' = ''{"a": 1}''
   \<and> extract_json_str ''Result {"a": {"b": 2}} follows'' = ''{"a": {"b": 2}}''
   \<and> extract_json_str ''plain words'' = ''plain words''\<close>
    by simp
  from json_extraction_order
         [of \<open>''Here it is: ```json {"a": 1} ``` Done.''\<close> 12 10
             \<open>''} no object {''\<close> 12 0 \<open>''plain words''\<close>]
       n4 o4 c4
  have \<open>extract_json_str ''} no object {'' = ''''\<close>
    by simp
  with first3 show ?thesis
    by simp
qed

text \<open>
  The content between the marker and the next fence of this response is a newline, the
  object and a newline; the substring chosen is the object without the newlines.
\<close>

theorem json_extraction_order_counterexample:
  "extract_json_str (''```json'' @ ''\<newline>{}\<newline>'' @ ''```'') \<noteq> ''\<newline>{}\<newline>''"
  by (simp add: extract_json_str_def py_in_def py_find_def py_slice_def slice_bound_def
      py_strip_def py_lstrip_def py_rstrip_def py_isspace_def)

section \<open>Evidence gathering\<close>

lemma google_loop_step:
  "google_loop query limit (d # ds) results = results
   \<or> google_loop query limit (d # ds) results = google_loop query limit ds results
   \<or> (\<not> limit \<le> int (length results)
      \<and> (\<exists>x. google_loop query limit (d # ds) results = google_loop query limit ds (results @ [x])))"
  by (cases "limit \<le> int (length results)")
     (auto simp: Let_def simp del: first_match.simps truthy.simps)

lemma google_loop_length:
  "int (length results) \<le> max 0 limit \<Longrightarrow>
   int (length (google_loop query limit ds results)) \<le> max 0 limit"
proof (induction ds arbitrary: results)
  case Nil
  then show ?case by simp
next
  case (Cons d ds)
  from google_loop_step [of query limit d ds results] show ?case
  proof (elim disjE conjE exE)
    assume "google_loop query limit (d # ds) results = results"
    with Cons.prems show ?thesis by simp
  next
    assume "google_loop query limit (d # ds) results = google_loop query limit ds results"
    with Cons.IH [OF Cons.prems] show ?thesis by simp
  next
    fix x
    assume less: "\<not> limit \<le> int (length results)"
      and step: "google_loop query limit (d # ds) results = google_loop query limit ds (results @ [x])"
    from less have "int (length (results @ [x])) \<le> max 0 limit"
      by simp
    from Cons.IH [OF this] step show ?thesis by simp
  qed
qed

lemma ddg_loop_step:
  "ddg_loop query limit (d # ds) results = results
   \<or> ddg_loop query limit (d # ds) results = ddg_loop query limit ds results
   \<or> (\<not> limit \<le> int (length results)
      \<and> (\<exists>x. ddg_loop query limit (d # ds) results = ddg_loop query limit ds (results @ [x])))"
  by (cases "limit \<le> int (length results)")
     (auto simp: Let_def split: option.splits)

lemma ddg_loop_length:
  "int (length results) \<le> max 0 limit \<Longrightarrow>
   int (length (ddg_loop query limit ds results)) \<le> max 0 limit"
proof (induction ds arbitrary: results)
  case Nil
  then show ?case by simp
next
  case (Cons d ds)
  from ddg_loop_step [of query limit d ds results] show ?case
  proof (elim disjE conjE exE)
    assume "ddg_loop query limit (d # ds) results = results"
    with Cons.prems show ?thesis by simp
  next
    assume "ddg_loop query limit (d # ds) results = ddg_loop query limit ds results"
    with Cons.IH [OF Cons.prems] show ?thesis by simp
  next
    fix x
    assume less: "\<not> limit \<le> int (length results)"
      and step: "ddg_loop query limit (d # ds) results = ddg_loop query limit ds (results @ [x])"
    from less have "int (length (results @ [x])) \<le> max 0 limit"
      by simp
    from Cons.IH [OF this] step show ?thesis by simp
  qed
qed

lemma search_google_simple_length:
  "int (length (search_google_simple w query limit)) \<le> max 0 limit"
  using google_loop_length [of "[]" limit query]
  by (auto simp: search_google_simple_def split: sum.splits)

lemma search_duckduckgo_length:
  "int (length (search_duckduckgo w query limit)) \<le> max 0 limit"
  using ddg_loop_length [of "[]" limit query]
  by (auto simp: search_duckduckgo_def split: sum.splits)

lemma scraped_bound:
  assumes "int (length E) \<le> max 0 limit" and "E \<noteq> []"
  shows "evidence_bound query limit E"
proof -
  from assms(2) have "1 \<le> length E"
    by (cases E) simp_all
  with assms(1) show ?thesis
    by (auto simp: evidence_bound_def)
qed

lemma search_unconfigured:
  "\<not> (truthy (api_key self) \<and> truthy (search_id self)) \<Longrightarrow>
   search self w query limit = Inl UnboundLocalError"
  by (auto simp: search_def)

lemma search_api_raises:
  "truthy (api_key self) \<Longrightarrow> truthy (search_id self) \<Longrightarrow>
   cse_list w (api_key self) (search_id self) query limit = Inl e \<Longrightarrow>
   search self w query limit = Inl e"
  by (simp add: search_def use_google_custom_search_def)

lemma search_Inr_cases:
  assumes "search self w query limit = Inr E"
  shows "\<exists>found. truthy (api_key self) \<and> truthy (search_id self)
     \<and> use_google_custom_search self w query limit = Inr found
     \<and> E = (if found \<noteq> [] then found
            else if search_google_simple w query limit \<noteq> [] then search_google_simple w query limit
            else if search_duckduckgo w query limit \<noteq> [] then search_duckduckgo w query limit
            else get_fallback_results query)"
  using assms
  by (auto simp: search_def Let_def split: if_splits sum.splits option.splits)

text \<open>
  C2.  What \<open>search\<close> does where the specification says that it returns normally.
  Without credentials the variable \<open>results\<close> is read before any assignment, and the call
  raises \<open>UnboundLocalError\<close>; with credentials and a failing search service, the error
  of the service leaves \<open>search\<close>, since that call is not guarded.
\<close>

theorem search_raises:
  "search unconfigured offline_web
       ''Scientists discover new planet made entirely of diamonds'' 5
     = Inl UnboundLocalError
   \<and> search configured offline_web
       ''Scientists discover new planet made entirely of diamonds'' 5
     = Inl (OtherError ''Unable to find the server'')"
  by (simp add: search_def use_google_custom_search_def unconfigured_def configured_def
      offline_web_def)

text \<open>
  Whatever the service does, a returned sequence is within the bound, or is the fallback,
  or is the non-empty list of all items of the service's response.
\<close>

lemma search_result_cases:
  assumes "search self w query limit = Inr E"
  shows "evidence_bound query limit E
       \<or> (E \<noteq> [] \<and> use_google_custom_search self w query limit = Inr E)"
proof -
  from search_Inr_cases [OF assms] obtain found where
    f: "use_google_custom_search self w query limit = Inr found" and
    E: "E = (if found \<noteq> [] then found
            else if search_google_simple w query limit \<noteq> [] then search_google_simple w query limit
            else if search_duckduckgo w query limit \<noteq> [] then search_duckduckgo w query limit
            else get_fallback_results query)"
    by blast
  show ?thesis
  proof (cases "found \<noteq> []")
    case True
    with f E show ?thesis by simp
  next
    case nf: False
    show ?thesis
    proof (cases "search_google_simple w query limit \<noteq> []")
      case True
      with nf E search_google_simple_length [of w query limit] show ?thesis
        by (simp add: scraped_bound)
    next
      case ng: False
      show ?thesis
      proof (cases "search_duckduckgo w query limit \<noteq> []")
        case True
        with nf ng E search_duckduckgo_length [of w query limit] show ?thesis
          by (simp add: scraped_bound)
      next
        case False
        with nf ng E show ?thesis
          by (simp add: evidence_bound_def)
      qed
    qed
  qed
qed



end
